theory Spec2Isabelle
  imports Main "HOL-Library.Sublist"
begin

text \<open>
  A model of the build toolchain's core: the manifest processor
  (\<open>replaceFileExtension\<close>, \<open>processManifest\<close> and the manifest plugin's hooks), the
  entry discoverer (\<open>getEntry\<close>, \<open>getBackgroundEntries\<close>, \<open>getContentScriptEntries\<close>,
  \<open>getExtensionPageEntries\<close>, \<open>discoverEntries\<close>), the socket notifier of the
  development script (\<open>notifyClientsToReload\<close>, the watch callback, \<open>shutdown\<close>) and
  the polling client injected into background scripts (\<open>checkForUpdates\<close>).  What the
  scripts read from outside (files, the clock, the DOM of the HTML files, the bundler's
  statistics, the server's clients) is a parameter of the functions.
\<close>

section \<open>JavaScript values and the operations the build scripts use on them\<close>

text \<open>
  The manifest and the package metadata are whatever \<^verbatim>\<open>fs.readJSONSync\<close> returns, and
  the scripts treat them as \<^verbatim>\<open>any\<close>.  A JSON value is therefore modelled as it is: an
  object is its list of members in insertion order, a number is an integer (numbers with a
  fraction or an exponent are outside the model; the scripts only test numbers for
  truthiness and render them as text).  JavaScript's \<^verbatim>\<open>undefined\<close> is \<open>None\<close> of
  \<open>json option\<close>.  Strings are lists of characters.
\<close>

datatype json =
    JNull
  | JBool bool
  | JNum int
  | JStr string
  | JArr "json list"
  | JObj "(string \<times> json) list"

type_synonym obj = "(string \<times> json) list"

text \<open>
  The exceptions the scripts can raise: \<^verbatim>\<open>new Error(message)\<close> thrown by the code
  itself, and the \<^verbatim>\<open>TypeError\<close> the runtime raises when a property of
  \<^verbatim>\<open>null\<close>/\<^verbatim>\<open>undefined\<close> is read, a value that is not a function is
  called, or a library function is handed a value that is not a string.
\<close>

datatype error = Error string | TypeError

definition bind :: "error + 'a \<Rightarrow> ('a \<Rightarrow> error + 'b) \<Rightarrow> error + 'b" where
  "bind m f = (case m of Inl e \<Rightarrow> Inl e | Inr v \<Rightarrow> f v)"

text \<open>\<^verbatim>\<open>if (v)\<close>: the falsy values are undefined, null, false, 0 and the empty string.\<close>

fun truthy :: "json option \<Rightarrow> bool" where
  "truthy None = False"
| "truthy (Some JNull) = False"
| "truthy (Some (JBool b)) = b"
| "truthy (Some (JNum n)) = (n \<noteq> 0)"
| "truthy (Some (JStr s)) = (s \<noteq> [])"
| "truthy (Some (JArr xs)) = True"
| "truthy (Some (JObj fs)) = True"

text \<open>
  \<^verbatim>\<open>o[k] = v\<close> on an object that came from JSON: an existing member keeps its place,
  a new one is appended.
\<close>

fun set_prop :: "string \<Rightarrow> 'v \<Rightarrow> (string \<times> 'v) list \<Rightarrow> (string \<times> 'v) list" where
  "set_prop k v [] = [(k, v)]"
| "set_prop k v (p # ps) = (if fst p = k then (k, v) # ps else p # set_prop k v ps)"

text \<open>
  \<^verbatim>\<open>x.k\<close>: reading a property of null or undefined throws; an object yields its own
  member; strings, numbers, booleans and arrays have none of the property names these
  scripts read (\<^verbatim>\<open>name\<close>, \<^verbatim>\<open>background\<close>, \<^verbatim>\<open>js\<close>, ...), nor does
  \<^verbatim>\<open>Object.prototype\<close>, so everything else yields undefined.
  \<^verbatim>\<open>x?.k\<close> yields undefined instead of throwing.
\<close>

fun get_prop :: "json option \<Rightarrow> string \<Rightarrow> error + json option" where
  "get_prop None k = Inl TypeError"
| "get_prop (Some JNull) k = Inl TypeError"
| "get_prop (Some (JObj fs)) k = Inr (map_of fs k)"
| "get_prop (Some v) k = Inr None"

fun opt_chain :: "json option \<Rightarrow> string \<Rightarrow> json option" where
  "opt_chain (Some (JObj fs)) k = map_of fs k"
| "opt_chain v k = None"

text \<open>The own member \<open>k\<close> of a JSON value, for stating properties of documents.\<close>

definition field :: "json \<Rightarrow> string \<Rightarrow> json option" where
  "field v k = opt_chain (Some v) k"

text \<open>
  \<^verbatim>\<open>o.k = v\<close> where \<open>o\<close> is a member read from a document.  The scripts assign only
  after they have read a truthy member of \<open>o\<close>, which makes \<open>o\<close> an object; the other
  case is the strict-mode TypeError of assigning to a primitive.
\<close>

fun put_prop :: "json \<Rightarrow> string \<Rightarrow> json \<Rightarrow> error + json" where
  "put_prop (JObj fs) k v = Inr (JObj (set_prop k v fs))"
| "put_prop w k v = Inl TypeError"

fun map_err :: "('a \<Rightarrow> error + 'b) \<Rightarrow> 'a list \<Rightarrow> error + 'b list" where
  "map_err f [] = Inr []"
| "map_err f (x # xs) = bind (f x) (\<lambda>y. bind (map_err f xs) (\<lambda>ys. Inr (y # ys)))"

text \<open>
  \<^verbatim>\<open>v.map(f)\<close>: only arrays have a \<^verbatim>\<open>map\<close> method; on any other value the call
  throws.  (A JSON object with a member called \<^verbatim>\<open>map\<close> holds a JSON value there, which
  is not callable either.)
\<close>

fun array_map :: "(json \<Rightarrow> error + json) \<Rightarrow> json option \<Rightarrow> error + json" where
  "array_map f (Some (JArr xs)) = bind (map_err f xs) (\<lambda>ys. Inr (JArr ys))"
| "array_map f v = Inl TypeError"

subsection \<open>Conversion to text\<close>

fun show_nat :: "nat \<Rightarrow> string" where
  "show_nat n =
     (if n < 10 then [''0123456789'' ! n]
      else show_nat (n div 10) @ [''0123456789'' ! (n mod 10)])"

declare show_nat.simps [simp del]

definition show_int :: "int \<Rightarrow> string" where
  "show_int i = (if i < 0 then CHR ''-'' # show_nat (nat (- i)) else show_nat (nat i))"

fun join_with :: "string \<Rightarrow> string list \<Rightarrow> string" where
  "join_with sep [] = []"
| "join_with sep [x] = x"
| "join_with sep (x # y # ys) = x @ sep @ join_with sep (y # ys)"

text \<open>
  \<^verbatim>\<open>String(v)\<close>, which \<^verbatim>\<open>RegExp.prototype.test\<close> applies to its argument.  An array
  is its elements joined by commas, null elements as the empty string; a plain object is
  \<^verbatim>\<open>[object Object]\<close>, unless it has a member called \<^verbatim>\<open>toString\<close>, which hides the
  inherited method and makes the conversion throw.
\<close>

fun to_string :: "json \<Rightarrow> error + string"
  and to_strings :: "json list \<Rightarrow> error + string list" where
  "to_string JNull = Inr ''null''"
| "to_string (JBool b) = Inr (if b then ''true'' else ''false'')"
| "to_string (JNum n) = Inr (show_int n)"
| "to_string (JStr s) = Inr s"
| "to_string (JArr xs) = bind (to_strings xs) (\<lambda>ss. Inr (join_with '','' ss))"
| "to_string (JObj fs) =
     (if ''toString'' \<in> fst ` set fs then Inl TypeError else Inr ''[object Object]'')"
| "to_strings [] = Inr []"
| "to_strings (x # xs) =
     bind (if x = JNull then Inr [] else to_string x)
       (\<lambda>s. bind (to_strings xs) (\<lambda>ss. Inr (s # ss)))"

section \<open>The manifest processor\<close>

text \<open>
  The pattern \<^verbatim>\<open>/\.(jsx?|tsx?)$/\<close> matches at most once, at the end of the string:
  \<open>script_ext s\<close> is the length of the matched extension.
\<close>

definition script_ext :: "string \<Rightarrow> nat option" where
  "script_ext s =
     (if suffix ''.jsx'' s \<or> suffix ''.tsx'' s then Some 4
      else if suffix ''.js'' s \<or> suffix ''.ts'' s then Some 3
      else None)"

text \<open>\<^verbatim>\<open>s.replace(/\.(jsx?|tsx?)$/, rep)\<close> on a string.\<close>

definition replace_script_ext :: "string \<Rightarrow> string \<Rightarrow> string" where
  "replace_script_ext rep s =
     (case script_ext s of None \<Rightarrow> s | Some k \<Rightarrow> take (length s - k) s @ rep)"

text \<open>
  The same call on an arbitrary value: only strings have a \<^verbatim>\<open>replace\<close> method.
\<close>

fun call_replace :: "string \<Rightarrow> json option \<Rightarrow> error + json" where
  "call_replace rep (Some (JStr s)) = Inr (JStr (replace_script_ext rep s))"
| "call_replace rep v = Inl TypeError"

definition replaceFileExtension :: "json \<Rightarrow> error + json" where
  "replaceFileExtension filePath = call_replace ''.js'' (Some filePath)"

text \<open>\<^verbatim>\<open>/\.(jsx?|tsx?)$/.test(res)\<close>\<close>

definition test_script_ext :: "json \<Rightarrow> error + bool" where
  "test_script_ext res = bind (to_string res) (\<lambda>s. Inr (script_ext s \<noteq> None))"

text \<open>
  \<^verbatim>\<open>if (!manifest[k] && packageJson[k]) manifest[k] = packageJson[k]\<close>; the package
  metadata is read only when the manifest's member is falsy.
\<close>

definition backfill :: "string \<Rightarrow> json \<Rightarrow> obj \<Rightarrow> error + obj" where
  "backfill k packageJson manifest =
     (if truthy (map_of manifest k) then Inr manifest
      else bind (get_prop (Some packageJson) k) (\<lambda>d.
        case d of
          None \<Rightarrow> Inr manifest
        | Some v \<Rightarrow> if truthy (Some v) then Inr (set_prop k v manifest) else Inr manifest))"

text \<open>
  \<^verbatim>\<open>manifest[k1][k2] = v\<close>, reached only after \<^verbatim>\<open>manifest[k1]?.[k2]\<close> was truthy.
\<close>

definition put_nested :: "obj \<Rightarrow> string \<Rightarrow> string \<Rightarrow> json \<Rightarrow> error + obj" where
  "put_nested manifest k1 k2 v =
     (case map_of manifest k1 of
        None \<Rightarrow> Inl TypeError
      | Some w \<Rightarrow> bind (put_prop w k2 v) (\<lambda>w'. Inr (set_prop k1 w' manifest)))"

text \<open>
  \<^verbatim>\<open>if (manifest.background?.service_worker) manifest.background.service_worker =
  replaceFileExtension(manifest.background.service_worker)\<close>
\<close>

definition rewrite_background :: "obj \<Rightarrow> error + obj" where
  "rewrite_background manifest =
     (let sw = opt_chain (map_of manifest ''background'') ''service_worker'' in
      if truthy sw
      then bind (call_replace ''.js'' sw)
             (\<lambda>v. put_nested manifest ''background'' ''service_worker'' v)
      else Inr manifest)"

text \<open>
  One member (\<^verbatim>\<open>js\<close> or \<^verbatim>\<open>css\<close>) of one content-script block:
  \<^verbatim>\<open>if (contentScript[k]) contentScript[k] = contentScript[k].map(replaceFileExtension)\<close>.
\<close>

definition rewrite_list_member :: "string \<Rightarrow> json \<Rightarrow> error + json" where
  "rewrite_list_member k contentScript =
     bind (get_prop (Some contentScript) k) (\<lambda>l.
       if truthy l
       then bind (array_map replaceFileExtension l) (\<lambda>l'. put_prop contentScript k l')
       else Inr contentScript)"

text \<open>The callback of \<^verbatim>\<open>manifest.content_scripts.map\<close>: first \<^verbatim>\<open>js\<close>, then \<^verbatim>\<open>css\<close>.\<close>

definition rewrite_content_script :: "json \<Rightarrow> error + json" where
  "rewrite_content_script contentScript =
     bind (rewrite_list_member ''js'' contentScript) (rewrite_list_member ''css'')"

text \<open>
  \<^verbatim>\<open>if (manifest.content_scripts) manifest.content_scripts =
  manifest.content_scripts.map(...)\<close>
\<close>

definition rewrite_content_scripts :: "obj \<Rightarrow> error + obj" where
  "rewrite_content_scripts manifest =
     (let cs = map_of manifest ''content_scripts'' in
      if truthy cs
      then bind (array_map rewrite_content_script cs)
             (\<lambda>cs'. Inr (set_prop ''content_scripts'' cs' manifest))
      else Inr manifest)"

text \<open>
  One resource path: \<^verbatim>\<open>if (/\.(jsx?|tsx?)$/.test(res)) return replaceFileExtension(res);
  return res\<close>; then one block of \<^verbatim>\<open>web_accessible_resources\<close>, whose
  \<^verbatim>\<open>resources\<close> are rewritten when the block has them (a block that is a plain
  string, as in manifest version 2, has none and is returned as it is); then the member
  itself.
\<close>

definition rewrite_res :: "json \<Rightarrow> error + json" where
  "rewrite_res res =
     bind (test_script_ext res) (\<lambda>t. if t then replaceFileExtension res else Inr res)"

definition rewrite_resource :: "json \<Rightarrow> error + json" where
  "rewrite_resource resource =
     bind (get_prop (Some resource) ''resources'') (\<lambda>rs.
       if truthy rs
       then bind (array_map rewrite_res rs) (\<lambda>rs'. put_prop resource ''resources'' rs')
       else Inr resource)"

definition rewrite_web_accessible_resources :: "obj \<Rightarrow> error + obj" where
  "rewrite_web_accessible_resources manifest =
     (let war = map_of manifest ''web_accessible_resources'' in
      if truthy war
      then bind (array_map rewrite_resource war)
             (\<lambda>war'. Inr (set_prop ''web_accessible_resources'' war' manifest))
      else Inr manifest)"

text \<open>
  \<^verbatim>\<open>if (manifest[key]?.default_popup) manifest[key].default_popup =
  manifest[key].default_popup.replace(/\.(jsx?|tsx?)$/, '.html')\<close>, for each of the three
  action keys in turn.
\<close>

definition rewrite_popup :: "string \<Rightarrow> obj \<Rightarrow> error + obj" where
  "rewrite_popup key manifest =
     (let p = opt_chain (map_of manifest key) ''default_popup'' in
      if truthy p
      then bind (call_replace ''.html'' p) (\<lambda>v. put_nested manifest key ''default_popup'' v)
      else Inr manifest)"

definition actionKeys :: "string list" where
  "actionKeys = [''action'', ''browser_action'', ''page_action'']"

fun for_each :: "('k \<Rightarrow> 's \<Rightarrow> error + 's) \<Rightarrow> 'k list \<Rightarrow> 's \<Rightarrow> error + 's" where
  "for_each f [] s = Inr s"
| "for_each f (k # ks) s = bind (f k s) (for_each f ks)"

text \<open>
  \<^verbatim>\<open>{ ...manifestContent }\<close>: the members of an object; the indexed elements of an
  array or the indexed characters of a string; nothing for the other values.
\<close>

fun spread :: "json \<Rightarrow> obj" where
  "spread (JObj fs) = fs"
| "spread (JArr xs) = zip (map show_nat [0 ..< length xs]) xs"
| "spread (JStr s) = zip (map show_nat [0 ..< length s]) (map (\<lambda>c. JStr [c]) s)"
| "spread v = []"

text \<open>
  \<open>processManifest\<close>.  \<open>packageFile\<close> is the content of package.json, \<open>None\<close> when the
  file does not exist; \<open>now\<close> is the reading of \<^verbatim>\<open>Date.now()\<close>.
\<close>

definition processManifest :: "json option \<Rightarrow> int \<Rightarrow> json \<Rightarrow> bool \<Rightarrow> error + json" where
  "processManifest packageFile now manifestContent isDevelopment =
     (let manifest = spread manifestContent;
          packageJson = (case packageFile of None \<Rightarrow> JObj [] | Some p \<Rightarrow> p)
      in bind (backfill ''name'' packageJson manifest) (\<lambda>m1.
         bind (backfill ''version'' packageJson m1) (\<lambda>m2.
         bind (backfill ''description'' packageJson m2) (\<lambda>m3.
         bind (rewrite_background m3) (\<lambda>m4.
         bind (rewrite_content_scripts m4) (\<lambda>m5.
         bind (rewrite_web_accessible_resources m5) (\<lambda>m6.
         bind (for_each rewrite_popup actionKeys m6) (\<lambda>m7.
         Inr (JObj (if isDevelopment
                    then set_prop ''__dev_timestamp'' (JNum now) m7
                    else m7))))))))))"

section \<open>Paths\<close>

text \<open>
  The functions of \<^verbatim>\<open>node:path\<close> the entry discoverer calls, in their POSIX form.
  \<open>cwd\<close> is \<^verbatim>\<open>process.cwd()\<close>, the project root, an absolute path.
\<close>

fun split_on :: "char \<Rightarrow> string \<Rightarrow> string list" where
  "split_on c [] = [[]]"
| "split_on c (x # xs) =
     (if x = c then [] # split_on c xs
      else (case split_on c xs of [] \<Rightarrow> [[x]] | w # ws \<Rightarrow> (x # w) # ws))"

text \<open>
  The library's \<^verbatim>\<open>normalizeString\<close>, segment by segment: empty segments and
  \<^verbatim>\<open>.\<close> are dropped, \<^verbatim>\<open>..\<close> removes the segment before it, or is kept when there is
  none to remove and the path may climb above its start.
\<close>

fun normalizeString :: "bool \<Rightarrow> string list \<Rightarrow> string list \<Rightarrow> string list" where
  "normalizeString allowAboveRoot res [] = res"
| "normalizeString allowAboveRoot res (seg # segs) =
     (if seg = [] \<or> seg = ''.'' then normalizeString allowAboveRoot res segs
      else if seg = ''..'' then
        (if res \<noteq> [] \<and> last res \<noteq> ''..''
         then normalizeString allowAboveRoot (butlast res) segs
         else if allowAboveRoot then normalizeString allowAboveRoot (res @ [''..'']) segs
         else normalizeString allowAboveRoot res segs)
      else normalizeString allowAboveRoot (res @ [seg]) segs)"

definition is_absolute :: "string \<Rightarrow> bool" where
  "is_absolute p = (p \<noteq> [] \<and> hd p = CHR ''/'')"

text \<open>The segments of \<^verbatim>\<open>path.resolve(p)\<close>; the resolved path is \<^verbatim>\<open>/\<close> and these joined.\<close>

definition resolve_segments :: "string \<Rightarrow> string \<Rightarrow> string list" where
  "resolve_segments cwd p =
     normalizeString False []
       (split_on CHR ''/'' (if is_absolute p then p else cwd @ ''/'' @ p))"

fun drop_common :: "'a list \<Rightarrow> 'a list \<Rightarrow> 'a list \<times> 'a list" where
  "drop_common (x # xs) (y # ys) = (if x = y then drop_common xs ys else (x # xs, y # ys))"
| "drop_common xs ys = (xs, ys)"

text \<open>\<^verbatim>\<open>path.relative(from, to)\<close>\<close>

definition path_relative :: "string \<Rightarrow> string \<Rightarrow> string \<Rightarrow> string" where
  "path_relative cwd from to =
     (case drop_common (resolve_segments cwd from) (resolve_segments cwd to) of
        (up, down) \<Rightarrow> join_with ''/'' (replicate (length up) ''..'' @ down))"

text \<open>\<^verbatim>\<open>path.normalize\<close> and \<^verbatim>\<open>path.join\<close>\<close>

definition path_normalize :: "string \<Rightarrow> string" where
  "path_normalize p =
     (if p = [] then ''.''
      else let body = join_with ''/'' (normalizeString (\<not> is_absolute p) [] (split_on CHR ''/'' p));
               trailingSeparator = (last p = CHR ''/'')
           in if body = [] then (if is_absolute p then ''/''
                                 else if trailingSeparator then ''./'' else ''.'')
              else (if is_absolute p then ''/'' else []) @ body
                   @ (if trailingSeparator then ''/'' else []))"

definition path_join :: "string list \<Rightarrow> string" where
  "path_join args =
     (let joined = join_with ''/'' (filter (\<lambda>a. a \<noteq> []) args)
      in if joined = [] then ''.'' else path_normalize joined)"

text \<open>
  \<^verbatim>\<open>path.dirname\<close>: trailing separators and the last component are cut off, scanning
  from the end down to the second character.
\<close>

definition path_dirname :: "string \<Rightarrow> string" where
  "path_dirname p =
     (if p = [] then ''.''
      else let kept = dropWhile (\<lambda>c. c \<noteq> CHR ''/'')
                        (dropWhile (\<lambda>c. c = CHR ''/'') (rev (tl p)));
               end = length kept
           in if end = 0 then (if is_absolute p then ''/'' else ''.'')
              else if is_absolute p \<and> end = 1 then ''//''
              else take end p)"

text \<open>
  \<^verbatim>\<open>path.parse(p).ext\<close>: from the last dot of the last path component to its end;
  empty when that component has no dot, starts with its only candidate dot, or is
  \<^verbatim>\<open>..\<close>.
\<close>

definition path_ext :: "string \<Rightarrow> string" where
  "path_ext p =
     (case filter (\<lambda>seg. seg \<noteq> []) (split_on CHR ''/'' p) of
        [] \<Rightarrow> []
      | segs \<Rightarrow>
          (let base = last segs;
               after = rev (takeWhile (\<lambda>c. c \<noteq> CHR ''.'') (rev base))
           in if CHR ''.'' \<notin> set base \<or> length after + 1 = length base \<or> base = ''..''
              then []
              else CHR ''.'' # after))"

text \<open>
  \<^verbatim>\<open>s.replace(pat, rep)\<close> with a string pattern: the first occurrence of \<open>pat\<close> in
  \<open>s\<close> is replaced (the empty pattern occurs at the start).
\<close>

fun replace_first :: "string \<Rightarrow> string \<Rightarrow> string \<Rightarrow> string" where
  "replace_first pat rep [] = (if pat = [] then rep else [])"
| "replace_first pat rep (c # cs) =
     (if prefix pat (c # cs) then rep @ drop (length pat) (c # cs)
      else c # replace_first pat rep cs)"

text \<open>\<^verbatim>\<open>s.replace(/\\/g, '/')\<close>\<close>

definition normalize_separators :: "string \<Rightarrow> string" where
  "normalize_separators s = map (\<lambda>c. if c = CHR 0x5C then CHR ''/'' else c) s"

section \<open>Entry discovery\<close>

record entry =
  name :: string
  path :: string

type_synonym EntryMap = "(string \<times> string) list"

record EntriesResult =
  background :: EntryMap
  contentScript :: EntryMap
  extensionPage :: EntryMap

definition paths_relative :: "string \<Rightarrow> string \<Rightarrow> string" where
  "paths_relative cwd filePath = path_relative cwd cwd filePath"

definition getEntry :: "string \<Rightarrow> string \<Rightarrow> entry" where
  "getEntry cwd entryPath =
     (let relativePath = paths_relative cwd entryPath;
          ext = path_ext relativePath;
          nm = replace_first ext [] relativePath
      in \<lparr> name = normalize_separators nm,
           path = ''./'' @ normalize_separators relativePath \<rparr>)"

text \<open>
  The manifest hands \<open>getEntry\<close> whatever it holds; \<^verbatim>\<open>path.relative\<close> rejects a value
  that is not a string with a TypeError.
\<close>

fun getEntry_of :: "string \<Rightarrow> json option \<Rightarrow> error + entry" where
  "getEntry_of cwd (Some (JStr s)) = Inr (getEntry cwd s)"
| "getEntry_of cwd v = Inl TypeError"

text \<open>
  \<^verbatim>\<open>entries[entry.name] = entry.path\<close> on an object literal.  The key
  \<^verbatim>\<open>__proto__\<close> is the inherited accessor, whose setter ignores a string: that
  assignment stores nothing.
\<close>

definition add_entry :: "entry \<Rightarrow> EntryMap \<Rightarrow> EntryMap" where
  "add_entry e entries =
     (if name e = ''__proto__'' then entries else set_prop (name e) (path e) entries)"

definition getBackgroundEntries :: "string \<Rightarrow> json \<Rightarrow> error + EntryMap" where
  "getBackgroundEntries cwd manifestJson =
     bind (get_prop (Some manifestJson) ''background'') (\<lambda>b.
       let serviceWorker = opt_chain b ''service_worker''
       in if truthy serviceWorker
          then bind (getEntry_of cwd serviceWorker) (\<lambda>e. Inr (add_entry e []))
          else Inr [])"

text \<open>\<^verbatim>\<open>v.forEach(f)\<close>: like \<^verbatim>\<open>map\<close>, a method of arrays only.\<close>

fun array_for_each :: "(json \<Rightarrow> 's \<Rightarrow> error + 's) \<Rightarrow> json option \<Rightarrow> 's \<Rightarrow> error + 's" where
  "array_for_each f (Some (JArr xs)) s = for_each f xs s"
| "array_for_each f v s = Inl TypeError"

definition getContentScriptEntries :: "string \<Rightarrow> json \<Rightarrow> error + EntryMap" where
  "getContentScriptEntries cwd manifestJson =
     bind (get_prop (Some manifestJson) ''content_scripts'') (\<lambda>contentScripts.
       if truthy contentScripts
       then array_for_each
              (\<lambda>contentScript entries.
                 bind (get_prop (Some contentScript) ''js'') (\<lambda>js.
                   if truthy js
                   then array_for_each
                          (\<lambda>j es. bind (getEntry_of cwd (Some j)) (\<lambda>e. Inr (add_entry e es)))
                          js entries
                   else Inr entries))
              contentScripts []
       else Inr [])"

text \<open>
  The extension pages.  \<open>htmlFiles\<close> is what the glob finds and the DOM parser sees:
  each HTML file, as its path relative to the root, with the values of the
  \<^verbatim>\<open>src\<close> attribute of its \<^verbatim>\<open>script[src]\<close> elements in document order.
  \<open>page_script\<close> is the guard \<^verbatim>\<open>src && !src.startsWith('http')\<close>.
\<close>

definition page_script :: "string \<Rightarrow> bool" where
  "page_script src = (src \<noteq> [] \<and> \<not> prefix ''http'' src)"

definition page_entry :: "string \<Rightarrow> string \<Rightarrow> string \<Rightarrow> entry" where
  "page_entry cwd htmlFile src =
     (let htmlPath = path_join [cwd, htmlFile];
          dirname = path_dirname htmlPath;
          scriptPath = path_join [dirname, src]
      in getEntry cwd scriptPath)"

definition getExtensionPageEntries :: "string \<Rightarrow> (string \<times> string list) list \<Rightarrow> EntryMap" where
  "getExtensionPageEntries cwd htmlFiles =
     fold (\<lambda>(htmlFile, srcs) entries.
             fold (\<lambda>src es. if page_script src
                             then add_entry (page_entry cwd htmlFile src) es else es)
                  srcs entries)
          htmlFiles []"

text \<open>
  What the discoverer and the manifest plugin read from the project: the root, the parsed
  manifest.json and package.json (\<open>None\<close> when the file does not exist), and the HTML
  files.
\<close>

record project =
  root :: string
  manifestJson :: "json option"
  packageJson :: "json option"
  html :: "(string \<times> string list) list"

definition no_manifest :: error where
  "no_manifest = Error ''No manifest.json found in project root''"

definition discoverEntries :: "project \<Rightarrow> error + EntriesResult" where
  "discoverEntries fs =
     (case manifestJson fs of
        None \<Rightarrow> Inl no_manifest
      | Some manifest \<Rightarrow>
          bind (getBackgroundEntries (root fs) manifest) (\<lambda>backgroundEntries.
          bind (getContentScriptEntries (root fs) manifest) (\<lambda>contentScriptEntries.
          Inr \<lparr> background = backgroundEntries,
                contentScript = contentScriptEntries,
                extensionPage = getExtensionPageEntries (root fs) (html fs) \<rparr>)))"

section \<open>The manifest plugin\<close>

text \<open>
  The plugin's closure variables, and its hooks.  \<open>buildStart\<close> reads and processes the
  manifest; \<open>generateBundle\<close> emits the asset \<^verbatim>\<open>manifest.json\<close> (here: the file name
  with the document; its rendering as text is not modelled).
\<close>

record manifest_plugin =
  manifestContent :: "json option"
  isDevelopment :: bool

definition buildStart :: "project \<Rightarrow> int \<Rightarrow> manifest_plugin \<Rightarrow> error + manifest_plugin" where
  "buildStart fs now st =
     (case manifestJson fs of
        None \<Rightarrow> Inl no_manifest
      | Some rawManifest \<Rightarrow>
          bind (processManifest (packageJson fs) now rawManifest (isDevelopment st))
            (\<lambda>m. Inr (st\<lparr>manifestContent := Some m\<rparr>)))"

definition generateBundle :: "manifest_plugin \<Rightarrow> error + (string \<times> json) list" where
  "generateBundle st =
     (case manifestContent st of
        None \<Rightarrow> Inl (Error ''Manifest content not loaded'')
      | Some m \<Rightarrow> Inr [(''manifest.json'', m)])"

text \<open>
  The bundler runs the hooks in this order, and a hook that throws aborts the build: the
  assets of a build are those \<open>generateBundle\<close> emits after \<open>buildStart\<close> succeeded.
\<close>

definition run_build :: "project \<Rightarrow> int \<Rightarrow> manifest_plugin \<Rightarrow> error + (string \<times> json) list" where
  "run_build fs now st = bind (buildStart fs now st) generateBundle"

section \<open>The socket notifier\<close>

text \<open>
  \<open>wss\<close> is the module's server handle, \<open>None\<close> when there is no server, otherwise the
  server's clients in the order of \<^verbatim>\<open>wss.clients\<close>.  What the notifier does is the
  list of its effects: a message sent to a client at once, or a timer set to send one
  after a delay in milliseconds.  Log lines are left out.
\<close>

datatype ready_state = CONNECTING | OPEN | CLOSING | CLOSED

record client =
  client_id :: nat
  readyState :: ready_state

datatype effect = Send nat string | SetTimeout nat nat string

text \<open>
  \<^verbatim>\<open>Object.keys(m).some((entry) => changedFiles.some((file) => file.includes(entry)))\<close>
\<close>

definition some_changed :: "EntryMap \<Rightarrow> string list \<Rightarrow> bool" where
  "some_changed m changedFiles =
     list_ex (\<lambda>entry. list_ex (\<lambda>file. sublist entry file) changedFiles) (map fst m)"

definition notify_client :: "bool \<Rightarrow> bool \<Rightarrow> bool \<Rightarrow> client \<Rightarrow> effect list" where
  "notify_client backgroundChanged contentScriptChanged extensionPageChanged c =
     (if readyState c = OPEN then
        (if backgroundChanged \<or> contentScriptChanged
         then [Send (client_id c) ''reload-background'',
               SetTimeout 500 (client_id c) ''reload-content'']
         else if extensionPageChanged then [Send (client_id c) ''reload-page'']
         else [])
      else [])"

definition notifyClientsToReload ::
  "client list option \<Rightarrow> string list \<Rightarrow> EntriesResult \<Rightarrow> effect list" where
  "notifyClientsToReload wss changedFiles entries =
     (case wss of
        None \<Rightarrow> []
      | Some clients \<Rightarrow>
          (let backgroundChanged = some_changed (background entries) changedFiles;
               contentScriptChanged = some_changed (contentScript entries) changedFiles;
               extensionPageChanged = some_changed (extensionPage entries) changedFiles
           in concat (map (notify_client backgroundChanged contentScriptChanged
                             extensionPageChanged) clients)))"

text \<open>
  The watch callback, as far as it decides whether the notifier runs: the bundler's fatal
  error, its statistics (\<open>None\<close> when it returns none), and the chunks with their
  modules, from which the list of changed files is taken.
\<close>

record module =
  moduleType :: string
  nameForCondition :: "string option"

record stats =
  hasErrors :: bool
  chunks :: "module list option list option"

definition changed_files :: "stats \<Rightarrow> string list" where
  "changed_files info =
     (case chunks info of
        None \<Rightarrow> []
      | Some cs \<Rightarrow>
          filter (\<lambda>n. n \<noteq> [])
            (concat (map (\<lambda>chunk. case chunk of
                                     None \<Rightarrow> []
                                   | Some ms \<Rightarrow> map (\<lambda>m. case nameForCondition m of
                                                            None \<Rightarrow> [] | Some n \<Rightarrow> n) ms)
               (filter (\<lambda>chunk. case chunk of
                                   None \<Rightarrow> False
                                 | Some ms \<Rightarrow> list_ex (\<lambda>m. moduleType m = ''javascript/auto'') ms)
                  cs))))"

definition watch_callback ::
  "bool \<Rightarrow> client list option \<Rightarrow> EntriesResult \<Rightarrow> bool \<Rightarrow> stats option \<Rightarrow> effect list" where
  "watch_callback reload wss entries err st =
     (if err then []
      else case st of
             None \<Rightarrow> []
           | Some info \<Rightarrow>
               if hasErrors info then []
               else if reload then notifyClientsToReload wss (changed_files info) entries
               else [])"

section \<open>Shutdown\<close>

text \<open>
  The two flags of the signal handler, and what one call of the handler does before any of
  its asynchronous work: it returns at once, it exits the process with a code, or it sets
  both flags and starts the shutdown sequence.
\<close>

record shutdown_flags =
  forceExit :: bool
  shutdownInProgress :: bool

datatype shutdown_step = Returned | Exited nat | Started

definition initial_flags :: shutdown_flags where
  "initial_flags = \<lparr> forceExit = False, shutdownInProgress = False \<rparr>"

definition shutdown :: "shutdown_flags \<Rightarrow> shutdown_step \<times> shutdown_flags" where
  "shutdown fl =
     (if shutdownInProgress fl then (Returned, fl)
      else if forceExit fl then (Exited 1, fl)
      else (Started, fl\<lparr>shutdownInProgress := True, forceExit := True\<rparr>))"

text \<open>The handler run on a sequence of signals, until the process exits.\<close>

fun signals :: "nat \<Rightarrow> shutdown_flags \<Rightarrow> shutdown_step list" where
  "signals 0 fl = []"
| "signals (Suc n) fl =
     (case shutdown fl of
        (Exited c, fl') \<Rightarrow> [Exited c]
      | (r, fl') \<Rightarrow> r # signals n fl')"

section \<open>The polling client of background scripts\<close>

text \<open>
  \<open>lastTimestamp\<close> is \<^verbatim>\<open>null\<close> until the first observation.  An observation is what
  \<^verbatim>\<open>chrome.runtime.getManifest().__dev_timestamp\<close> gives: the number the manifest
  processor wrote, undefined (\<open>None\<close>) when the manifest has no such member, or an
  exception, which the client catches.  The result of \<open>checkForUpdates\<close> is the new
  \<open>lastTimestamp\<close> and whether \<^verbatim>\<open>chrome.runtime.reload()\<close> was called.
\<close>

datatype last_seen = Null | Seen "int option"

datatype observation = Threw | Got "int option"

definition checkForUpdates :: "last_seen \<Rightarrow> observation \<Rightarrow> last_seen \<times> bool" where
  "checkForUpdates lastTimestamp ob =
     (case ob of
        Threw \<Rightarrow> (lastTimestamp, False)
      | Got currentTimestamp \<Rightarrow>
          if lastTimestamp = Null then (Seen currentTimestamp, False)
          else if truthy (map_option JNum currentTimestamp)
                  \<and> Seen currentTimestamp \<noteq> lastTimestamp
               then (lastTimestamp, True)
          else (lastTimestamp, False))"

text \<open>The reloads a client triggers on a sequence of polls, one flag for each poll.\<close>

fun poll :: "last_seen \<Rightarrow> observation list \<Rightarrow> bool list" where
  "poll lastTimestamp [] = []"
| "poll lastTimestamp (ob # obs) =
     (case checkForUpdates lastTimestamp ob of (l, r) \<Rightarrow> r # poll l obs)"

section \<open>Notions of the specification\<close>

text \<open>
  An absolute URL begins with a scheme and a colon; a scheme is a letter followed by
  letters, digits, \<^verbatim>\<open>+\<close>, \<^verbatim>\<open>-\<close> or \<^verbatim>\<open>.\<close> (RFC 3986).  The specification counts the script
  tags whose source is not one.
\<close>

definition scheme_char :: "char \<Rightarrow> bool" where
  "scheme_char c =
     (c \<in> set ''abcdefghijklmnopqrstuvwxyzABCDEFGHIJKLMNOPQRSTUVWXYZ0123456789+-.'')"

definition absolute_url :: "string \<Rightarrow> bool" where
  "absolute_url s =
     (let scheme = takeWhile (\<lambda>c. c \<noteq> CHR '':'') s
      in length scheme < length s \<and> scheme \<noteq> []
         \<and> hd scheme \<notin> set ''0123456789+-.'' \<and> list_all scheme_char scheme)"

definition spec_page_scripts :: "(string \<times> string list) list \<Rightarrow> string list" where
  "spec_page_scripts htmlFiles =
     concat (map (\<lambda>(htmlFile, srcs). filter (\<lambda>src. \<not> absolute_url src) srcs) htmlFiles)"

text \<open>
  The scripts the code's guard lets through, as the entries they give, in the order of
  discovery.
\<close>

definition discovered :: "string \<Rightarrow> (string \<times> string list) list \<Rightarrow> entry list" where
  "discovered cwd htmlFiles =
     concat (map (\<lambda>(htmlFile, srcs). map (page_entry cwd htmlFile) (filter page_script srcs))
               htmlFiles)"

text \<open>
  The specification speaks of the files a rebuild changed and of the category they belong
  to.  The source file of an entry is its path under the project root; a rebuild changed
  only files of a category when it changed at least one file and each changed file is the
  source file of an entry of that category.
\<close>

definition entry_file :: "string \<Rightarrow> string \<times> string \<Rightarrow> string" where
  "entry_file rootDir e = rootDir @ drop 1 (snd e)"

definition changed_only :: "string \<Rightarrow> EntryMap \<Rightarrow> string list \<Rightarrow> bool" where
  "changed_only rootDir m changedFiles =
     (changedFiles \<noteq> [] \<and> list_all (\<lambda>f. f \<in> set (map (entry_file rootDir) m)) changedFiles)"

section \<open>The processor's steps as updates of one member\<close>

text \<open>
  Each step of the processor reads one member of the manifest and either leaves the
  manifest alone or stores a new value for that member.  \<open>modify K g\<close> is such a step for
  the member \<open>K\<close>, \<open>g\<close> giving the value to store, if any; \<open>chain\<close> runs steps one after
  the other.  The functions after them are the steps' effects on the member they read.
\<close>

type_synonym change = "json option \<Rightarrow> error + json option"

definition modify :: "string \<Rightarrow> change \<Rightarrow> obj \<Rightarrow> error + obj" where
  "modify K g m =
     bind (g (map_of m K)) (\<lambda>r. case r of None \<Rightarrow> Inr m | Some v \<Rightarrow> Inr (set_prop K v m))"

fun chain :: "(string \<times> change) list \<Rightarrow> obj \<Rightarrow> error + obj" where
  "chain [] m = Inr m"
| "chain (Kg # l) m = bind (modify (fst Kg) (snd Kg) m) (chain l)"

definition settled :: "change \<Rightarrow> json option \<Rightarrow> bool" where
  "settled g x = (g x = Inr None \<or> (x \<noteq> None \<and> g x = Inr x))"

definition settles :: "change \<Rightarrow> bool" where
  "settles g = (\<forall>x v. g x = Inr (Some v) \<longrightarrow> settled g (Some v))"

definition backfill_value :: "json \<Rightarrow> string \<Rightarrow> change" where
  "backfill_value pkg k x =
     (if truthy x then Inr None
      else bind (get_prop (Some pkg) k) (\<lambda>d. if truthy d then Inr d else Inr None))"

definition nested_value :: "string \<Rightarrow> string \<Rightarrow> change" where
  "nested_value k2 rep x =
     (if truthy (opt_chain x k2)
      then bind (call_replace rep (opt_chain x k2)) (\<lambda>v.
             case x of
               None \<Rightarrow> Inl TypeError
             | Some w \<Rightarrow> bind (put_prop w k2 v) (\<lambda>w'. Inr (Some w')))
      else Inr None)"

definition list_value :: "(json \<Rightarrow> error + json) \<Rightarrow> change" where
  "list_value f x = (if truthy x then bind (array_map f x) (\<lambda>v. Inr (Some v)) else Inr None)"

definition production_steps :: "json \<Rightarrow> (string \<times> change) list" where
  "production_steps pkg =
     [(''name'', backfill_value pkg ''name''),
      (''version'', backfill_value pkg ''version''),
      (''description'', backfill_value pkg ''description''),
      (''background'', nested_value ''service_worker'' ''.js''),
      (''content_scripts'', list_value rewrite_content_script),
      (''web_accessible_resources'', list_value rewrite_resource),
      (''action'', nested_value ''default_popup'' ''.html''),
      (''browser_action'', nested_value ''default_popup'' ''.html''),
      (''page_action'', nested_value ''default_popup'' ''.html'')]"

definition package_of :: "json option \<Rightarrow> json" where
  "package_of packageFile = (case packageFile of None \<Rightarrow> JObj [] | Some p \<Rightarrow> p)"

text \<open>\<^verbatim>\<open>manifest.background?.service_worker\<close> of a document.\<close>

definition service_worker :: "json \<Rightarrow> json option" where
  "service_worker manifest = opt_chain (field manifest ''background'') ''service_worker''"

text \<open>A result that is not an \<^verbatim>\<open>Error\<close> thrown by the scripts themselves.\<close>

definition type_errors_only :: "error + 'a \<Rightarrow> bool" where
  "type_errors_only r = (case r of Inl (Error msg) \<Rightarrow> False | _ \<Rightarrow> True)"

section \<open>Properties of the program\<close>

subsection \<open>Errors, members, and chains of steps\<close>

lemma bind_Inr_iff: "bind m f = Inr y \<longleftrightarrow> (\<exists>v. m = Inr v \<and> f v = Inr y)"
  by (cases m) (simp_all add: bind_def)

lemma bind_Inl_iff: "bind m f = Inl e \<longleftrightarrow> (m = Inl e \<or> (\<exists>v. m = Inr v \<and> f v = Inl e))"
  by (cases m) (simp_all add: bind_def)

lemma bind_Inr [simp]: "bind (Inr v) f = f v"
  by (simp add: bind_def)

lemma bind_Inl [simp]: "bind (Inl e) f = Inl e"
  by (simp add: bind_def)

lemma map_of_set_prop: "map_of (set_prop k v m) k' = (if k' = k then Some v else map_of m k')"
  by (induction m) auto

lemma set_prop_same: "map_of m k = Some v \<Longrightarrow> set_prop k v m = m"
  by (induction m) (auto split: if_splits)

lemma set_prop_twice: "set_prop k v (set_prop k u m) = set_prop k v m"
  by (induction m) auto

lemma backfill_modify: "backfill k p m = modify k (backfill_value p k) m"
  by (cases "get_prop (Some p) k")
     (auto simp: backfill_def modify_def backfill_value_def split: option.splits)

lemma put_nested_modify:
  "rewrite_background m = modify ''background'' (nested_value ''service_worker'' ''.js'') m"
  by (cases "call_replace ''.js'' (opt_chain (map_of m ''background'') ''service_worker'')")
     (cases "map_of m ''background''"; auto simp: rewrite_background_def modify_def nested_value_def put_nested_def Let_def bind_def split: option.splits sum.splits)+


lemma rewrite_popup_modify:
  "rewrite_popup key m = modify key (nested_value ''default_popup'' ''.html'') m"
  by (cases "call_replace ''.html'' (opt_chain (map_of m key) ''default_popup'')")
     (cases "map_of m key"; auto simp: rewrite_popup_def modify_def nested_value_def put_nested_def Let_def bind_def split: option.splits sum.splits)+

lemma rewrite_content_scripts_modify:
  "rewrite_content_scripts m = modify ''content_scripts'' (list_value rewrite_content_script) m"
  by (auto simp: rewrite_content_scripts_def modify_def list_value_def Let_def bind_def split: sum.splits)

lemma rewrite_war_modify:
  "rewrite_web_accessible_resources m
     = modify ''web_accessible_resources'' (list_value rewrite_resource) m"
  by (auto simp: rewrite_web_accessible_resources_def modify_def list_value_def Let_def bind_def split: sum.splits)

lemma bind_assoc: "bind (bind m f) g = bind m (\<lambda>x. bind (f x) g)"
  by (cases m) simp_all

lemma chain_Cons_fun: "chain (Kg # l) = (\<lambda>m. bind (modify (fst Kg) (snd Kg) m) (chain l))"
  by (rule ext) simp

lemma chain_Nil_fun: "chain [] = Inr"
  by (rule ext) simp

lemma for_each_Cons_fun: "for_each f (k # ks) = (\<lambda>s. bind (f k s) (for_each f ks))"
  by (rule ext) simp

lemma for_each_Nil_fun: "for_each f [] = Inr"
  by (rule ext) simp

lemma bind_return: "bind m Inr = m"
  by (cases m) simp_all

lemma production_chain:
  "chain (production_steps p) m =
     bind (backfill ''name'' p m) (\<lambda>m1.
     bind (backfill ''version'' p m1) (\<lambda>m2.
     bind (backfill ''description'' p m2) (\<lambda>m3.
     bind (rewrite_background m3) (\<lambda>m4.
     bind (rewrite_content_scripts m4) (\<lambda>m5.
     bind (rewrite_web_accessible_resources m5) (\<lambda>m6.
     for_each rewrite_popup actionKeys m6))))))"
  apply (simp only: production_steps_def chain_Cons_fun chain_Nil_fun fst_conv snd_conv
      backfill_modify put_nested_modify rewrite_popup_modify rewrite_content_scripts_modify
      rewrite_war_modify actionKeys_def for_each_Cons_fun for_each_Nil_fun bind_return)
  done

lemma processManifest_chain:
  "processManifest pf now mc dev =
     bind (chain (production_steps (package_of pf)) (spread mc))
       (\<lambda>m. Inr (JObj (if dev then set_prop ''__dev_timestamp'' (JNum now) m else m)))"
  by (simp only: production_chain processManifest_def Let_def bind_assoc package_of_def)

lemma modify_cases:
  assumes "modify K g m = Inr m'"
  obtains (unchanged) "g (map_of m K) = Inr None" "m' = m"
        | (stored) v where "g (map_of m K) = Inr (Some v)" "m' = set_prop K v m"
proof (cases "g (map_of m K)")
  case (Inl e)
  with assms show ?thesis by (simp add: modify_def)
next
  case (Inr r)
  show ?thesis
  proof (cases r)
    case None
    with Inr assms have "m' = m" by (simp add: modify_def)
    with Inr None show ?thesis by (simp add: unchanged)
  next
    case (Some v)
    with Inr assms have "m' = set_prop K v m" by (simp add: modify_def)
    with Inr Some show ?thesis by (simp add: stored)
  qed
qed

lemma modify_frame:
  "modify K g m = Inr m' \<Longrightarrow> k \<noteq> K \<Longrightarrow> map_of m' k = map_of m k"
  by (erule modify_cases) (simp_all add: map_of_set_prop)

lemma modify_key:
  "modify K g m = Inr m' \<Longrightarrow>
     \<exists>r. g (map_of m K) = Inr r \<and> map_of m' K = (case r of None \<Rightarrow> map_of m K | Some v \<Rightarrow> Some v)"
  by (erule modify_cases) (simp_all add: map_of_set_prop)

lemma modify_settled:
  "settled g (map_of m K) \<Longrightarrow> modify K g m = Inr m"
  by (cases "map_of m K") (auto simp: modify_def settled_def set_prop_same)

lemma modify_settles:
  "settles g \<Longrightarrow> modify K g m = Inr m' \<Longrightarrow> settled g (map_of m' K)"
proof (erule modify_cases)
  assume "g (map_of m K) = Inr None" "m' = m"
  then show ?thesis by (simp add: settled_def)
next
  fix v assume "settles g" "g (map_of m K) = Inr (Some v)" "m' = set_prop K v m"
  then show ?thesis by (auto simp: settles_def map_of_set_prop)
qed

lemma chain_frame:
  "chain l m = Inr m' \<Longrightarrow> k \<notin> fst ` set l \<Longrightarrow> map_of m' k = map_of m k"
proof (induction l arbitrary: m)
  case Nil
  then show ?case by simp
next
  case (Cons Kg l)
  from Cons.prems(1) obtain m1 where
    s: "modify (fst Kg) (snd Kg) m = Inr m1" and r: "chain l m1 = Inr m'"
    by (auto simp: bind_Inr_iff)
  from Cons.prems(2) have "k \<noteq> fst Kg" "k \<notin> fst ` set l" by auto
  with Cons.IH [OF r] modify_frame [OF s] show ?case by simp
qed

lemma chain_key:
  assumes "chain l m = Inr m'" "distinct (map fst l)" "(K, g) \<in> set l"
  shows "\<exists>r. g (map_of m K) = Inr r
           \<and> map_of m' K = (case r of None \<Rightarrow> map_of m K | Some v \<Rightarrow> Some v)"
  using assms
proof (induction l arbitrary: m)
  case Nil
  then show ?case by simp
next
  case (Cons Kg l)
  from Cons.prems(1) obtain m1 where
    s: "modify (fst Kg) (snd Kg) m = Inr m1" and r: "chain l m1 = Inr m'"
    by (auto simp: bind_Inr_iff)
  show ?case
  proof (cases "Kg = (K, g)")
    case True
    with Cons.prems(2) have "K \<notin> fst ` set l" by auto
    from s True have "modify K g m = Inr m1" by simp
    from modify_key [OF this] obtain r' where
      "g (map_of m K) = Inr r'"
      "map_of m1 K = (case r' of None \<Rightarrow> map_of m K | Some v \<Rightarrow> Some v)"
      by auto
    with chain_frame [OF r \<open>K \<notin> fst ` set l\<close>] show ?thesis by simp
  next
    case False
    with Cons.prems have in_l: "(K, g) \<in> set l" and d: "distinct (map fst l)" by auto
    with Cons.prems(2) have "K \<noteq> fst Kg" by (auto simp: image_iff)
    from modify_frame [OF s this] Cons.IH [OF r d in_l] show ?thesis
      by (auto split: option.splits)
  qed
qed

lemma chain_settled:
  assumes "chain l m = Inr m'" "distinct (map fst l)" "\<forall>Kg \<in> set l. settles (snd Kg)"
  shows "\<forall>Kg \<in> set l. settled (snd Kg) (map_of m' (fst Kg))"
  using assms
proof (induction l arbitrary: m)
  case Nil
  then show ?case by simp
next
  case (Cons Kg l)
  from Cons.prems(1) obtain m1 where
    s: "modify (fst Kg) (snd Kg) m = Inr m1" and r: "chain l m1 = Inr m'"
    by (auto simp: bind_Inr_iff)
  from Cons.prems(2) have "fst Kg \<notin> fst ` set l" by auto
  from chain_frame [OF r this] have "map_of m' (fst Kg) = map_of m1 (fst Kg)" .
  moreover from Cons.prems(3) s have "settled (snd Kg) (map_of m1 (fst Kg))"
    by (auto intro: modify_settles)
  moreover from Cons.IH [OF r] Cons.prems
  have "\<forall>Kg \<in> set l. settled (snd Kg) (map_of m' (fst Kg))" by auto
  ultimately show ?case by simp
qed

lemma chain_fixed:
  "\<forall>Kg \<in> set l. settled (snd Kg) (map_of m (fst Kg)) \<Longrightarrow> chain l m = Inr m"
  by (induction l) (auto simp: modify_settled)

lemma chain_idem:
  assumes "chain l m = Inr m'" "distinct (map fst l)" "\<forall>Kg \<in> set l. settles (snd Kg)"
  shows "chain l m' = Inr m'"
  using chain_fixed chain_settled [OF assms] by blast


lemma script_ext_js: "script_ext (x @ ''.js'') = Some 3"
  by (simp add: script_ext_def suffix_to_prefix)

lemma script_ext_html: "script_ext (x @ ''.html'') = None"
  by (simp add: script_ext_def suffix_to_prefix)

lemma replace_js_idem:
  "replace_script_ext ''.js'' (replace_script_ext ''.js'' s) = replace_script_ext ''.js'' s"
  by (cases "script_ext s") (simp_all add: replace_script_ext_def script_ext_js)

lemma replace_html_idem:
  "replace_script_ext ''.html'' (replace_script_ext ''.html'' s) = replace_script_ext ''.html'' s"
  by (cases "script_ext s") (simp_all add: replace_script_ext_def script_ext_html)

lemma replace_nonempty: "s \<noteq> [] \<Longrightarrow> rep \<noteq> [] \<Longrightarrow> replace_script_ext rep s \<noteq> []"
  by (cases "script_ext s") (simp_all add: replace_script_ext_def)

lemma settles_backfill: "settles (backfill_value p k)"
  by (auto simp: settles_def settled_def backfill_value_def bind_Inr_iff split: if_splits)

lemma call_replace_Inr:
  "call_replace rep x = Inr v \<longleftrightarrow> (\<exists>s. x = Some (JStr s) \<and> v = JStr (replace_script_ext rep s))"
  by (cases "(rep, x)" rule: call_replace.cases) auto

lemma put_prop_Inr: "put_prop w k v = Inr w' \<longleftrightarrow> (\<exists>fs. w = JObj fs \<and> w' = JObj (set_prop k v fs))"
  by (cases "(w, k, v)" rule: put_prop.cases) auto

lemma nested_value_Some:
  assumes "nested_value k2 rep x = Inr (Some w')"
  obtains fs s where "x = Some (JObj fs)" "map_of fs k2 = Some (JStr s)" "s \<noteq> []"
    "w' = JObj (set_prop k2 (JStr (replace_script_ext rep s)) fs)"
proof -
  from assms have t: "truthy (opt_chain x k2)"
    by (auto simp: nested_value_def split: if_splits)
  with assms obtain v w where v: "call_replace rep (opt_chain x k2) = Inr v"
    and x: "x = Some w" and p: "put_prop w k2 v = Inr w'"
    by (auto simp: nested_value_def bind_Inr_iff split: option.splits)
  from p obtain fs where fs: "w = JObj fs" "w' = JObj (set_prop k2 v fs)"
    by (auto simp: put_prop_Inr)
  from v x fs obtain s where s: "map_of fs k2 = Some (JStr s)" "v = JStr (replace_script_ext rep s)"
    by (auto simp: call_replace_Inr)
  with t x fs have "s \<noteq> []" by simp
  with x fs s that show ?thesis by blast
qed

lemma settles_nested:
  assumes idem: "\<And>s. replace_script_ext rep (replace_script_ext rep s) = replace_script_ext rep s"
    and rep: "rep \<noteq> []"
  shows "settles (nested_value k2 rep)"
  unfolding settles_def
proof (intro allI impI)
  fix x w' assume "nested_value k2 rep x = Inr (Some w')"
  then obtain fs s where w': "w' = JObj (set_prop k2 (JStr (replace_script_ext rep s)) fs)"
    and "s \<noteq> []"
    by (rule nested_value_Some)
  with rep have "replace_script_ext rep s \<noteq> []" by (simp add: replace_nonempty)
  with w' have "nested_value k2 rep (Some w') = Inr (Some w')"
    by (simp add: nested_value_def map_of_set_prop idem set_prop_twice)
  then show "settled (nested_value k2 rep) (Some w')" by (simp add: settled_def)
qed

lemma map_err_idem:
  "(\<And>x y. f x = Inr y \<Longrightarrow> f y = Inr y) \<Longrightarrow> map_err f xs = Inr ys \<Longrightarrow> map_err f ys = Inr ys"
  by (induction xs arbitrary: ys) (auto simp: bind_Inr_iff)

lemma array_map_Inr:
  "array_map f x = Inr v \<longleftrightarrow> (\<exists>xs ys. x = Some (JArr xs) \<and> map_err f xs = Inr ys \<and> v = JArr ys)"
  by (cases "(f, x)" rule: array_map.cases) (auto simp: bind_Inr_iff)

lemma settles_list:
  assumes "\<And>x y. f x = Inr y \<Longrightarrow> f y = Inr y"
  shows "settles (list_value f)"
  unfolding settles_def
proof (intro allI impI)
  fix x v assume "list_value f x = Inr (Some v)"
  then obtain xs ys where "map_err f xs = Inr ys" "v = JArr ys"
    by (auto simp: list_value_def bind_Inr_iff array_map_Inr split: if_splits)
  with map_err_idem [of f xs ys] assms have "list_value f (Some v) = Inr (Some v)"
    by (simp add: list_value_def)
  then show "settled (list_value f) (Some v)" by (simp add: settled_def)
qed

lemma replaceFileExtension_idem: "replaceFileExtension x = Inr y \<Longrightarrow> replaceFileExtension y = Inr y"
  by (auto simp: replaceFileExtension_def call_replace_Inr replace_js_idem)

lemma rewrite_res_idem: "rewrite_res x = Inr y \<Longrightarrow> rewrite_res y = Inr y"
proof -
  assume a: "rewrite_res x = Inr y"
  then obtain t where t: "test_script_ext x = Inr t"
    and r: "(if t then replaceFileExtension x else Inr x) = Inr y"
    by (auto simp: rewrite_res_def bind_Inr_iff)
  show ?thesis
  proof (cases t)
    case False
    with r t show ?thesis by (simp add: rewrite_res_def)
  next
    case True
    with r obtain s where "x = JStr s" "y = JStr (replace_script_ext ''.js'' s)"
      by (auto simp: replaceFileExtension_def call_replace_Inr)
    with True t show ?thesis
      by (cases "script_ext s")
         (simp_all add: rewrite_res_def test_script_ext_def replaceFileExtension_def
            replace_script_ext_def script_ext_js)
  qed
qed


lemma rewrite_list_member_obj:
  "rewrite_list_member k (JObj fs) =
     bind (modify k (list_value replaceFileExtension) fs) (\<lambda>fs'. Inr (JObj fs'))"
  by (cases "array_map replaceFileExtension (map_of fs k)")
     (simp_all add: rewrite_list_member_def modify_def list_value_def)

lemma rewrite_list_member_other:
  "\<forall>fs. x \<noteq> JObj fs \<Longrightarrow> rewrite_list_member k x = (if x = JNull then Inl TypeError else Inr x)"
  by (cases x) (simp_all add: rewrite_list_member_def)

lemma rewrite_content_script_obj:
  "rewrite_content_script (JObj fs) =
     bind (chain [(''js'', list_value replaceFileExtension),
                  (''css'', list_value replaceFileExtension)] fs) (\<lambda>fs'. Inr (JObj fs'))"
proof (cases "modify ''js'' (list_value replaceFileExtension) fs")
  case (Inl e)
  then show ?thesis by (simp add: rewrite_content_script_def rewrite_list_member_obj)
next
  case (Inr fs1)
  then show ?thesis
    by (simp add: rewrite_content_script_def rewrite_list_member_obj bind_return chain_Nil_fun)
qed

lemma rewrite_content_script_idem:
  assumes "rewrite_content_script x = Inr y"
  shows "rewrite_content_script y = Inr y"
proof (cases "\<exists>fs. x = JObj fs")
  case True
  then obtain fs where x: "x = JObj fs" by blast
  let ?l = "[(''js'', list_value replaceFileExtension), (''css'', list_value replaceFileExtension)]"
  from assms x obtain fs' where c: "chain ?l fs = Inr fs'" and y: "y = JObj fs'"
    by (auto simp only: rewrite_content_script_obj bind_Inr_iff sum.inject)
  have "chain ?l fs' = Inr fs'"
    by (rule chain_idem [OF c]) (simp_all add: settles_list replaceFileExtension_idem)
  with y show ?thesis by (simp only: rewrite_content_script_obj bind_Inr)
next
  case False
  then have n: "\<forall>fs. x \<noteq> JObj fs" by blast
  with assms have "x \<noteq> JNull" "y = x"
    by (auto simp: rewrite_content_script_def rewrite_list_member_other split: if_splits)
  with n show ?thesis
    by (simp add: rewrite_content_script_def rewrite_list_member_other)
qed

lemma rewrite_resource_obj:
  "rewrite_resource (JObj fs) =
     bind (modify ''resources'' (list_value rewrite_res) fs) (\<lambda>fs'. Inr (JObj fs'))"
  by (cases "array_map rewrite_res (map_of fs ''resources'')")
     (simp_all add: rewrite_resource_def modify_def list_value_def)

lemma rewrite_resource_other:
  "\<forall>fs. x \<noteq> JObj fs \<Longrightarrow> rewrite_resource x = (if x = JNull then Inl TypeError else Inr x)"
  by (cases x) (simp_all add: rewrite_resource_def)

lemma rewrite_resource_idem:
  assumes "rewrite_resource x = Inr y"
  shows "rewrite_resource y = Inr y"
proof (cases "\<exists>fs. x = JObj fs")
  case True
  then obtain fs where x: "x = JObj fs" by blast
  from assms x obtain fs' where
    c: "modify ''resources'' (list_value rewrite_res) fs = Inr fs'" and y: "y = JObj fs'"
    by (auto simp only: rewrite_resource_obj bind_Inr_iff sum.inject)
  have "settles (list_value rewrite_res)"
    by (rule settles_list) (rule rewrite_res_idem)
  from modify_settled [OF modify_settles [OF this c]] y show ?thesis
    by (simp only: rewrite_resource_obj bind_Inr)
next
  case False
  then have n: "\<forall>fs. x \<noteq> JObj fs" by blast
  with assms have "x \<noteq> JNull" "y = x"
    by (auto simp: rewrite_resource_other split: if_splits)
  with n show ?thesis by (simp add: rewrite_resource_other)
qed

lemma settles_production: "\<forall>Kg \<in> set (production_steps p). settles (snd Kg)"
  by (simp add: production_steps_def settles_backfill settles_nested replace_js_idem
      replace_html_idem settles_list rewrite_content_script_idem rewrite_resource_idem)

lemma distinct_production: "distinct (map fst (production_steps p))"
  by (simp add: production_steps_def)

lemma digit_nth: "n < 10 \<Longrightarrow> ''0123456789'' ! n \<in> set ''0123456789''"
  by (rule nth_mem) simp

lemma show_nat_hd: "show_nat n \<noteq> [] \<and> hd (show_nat n) \<in> set ''0123456789''"
proof (induction n rule: show_nat.induct)
  case (1 n)
  show ?case
  proof (cases "n < 10")
    case True
    with digit_nth [OF True] show ?thesis by (subst (1 2) show_nat.simps) simp
  next
    case False
    with 1 show ?thesis by (subst (1 2) show_nat.simps) simp
  qed
qed

lemma map_of_indexed:
  assumes "k \<noteq> []" "hd k \<notin> set ''0123456789''"
  shows "map_of (zip (map show_nat is) vs) k = None"
proof -
  have "k \<notin> set (map show_nat is)" using assms show_nat_hd by auto
  then have "k \<notin> fst ` set (zip (map show_nat is) vs)"
    by (auto dest: set_zip_leftD)
  then show ?thesis by (simp add: map_of_eq_None_iff)
qed

lemma map_of_spread:
  "k \<noteq> [] \<Longrightarrow> hd k \<notin> set ''0123456789'' \<Longrightarrow> map_of (spread raw) k = field raw k"
  by (cases raw) (simp_all add: field_def map_of_indexed)

lemma processManifest_Inr:
  "processManifest pf now raw dev = Inr processed \<longleftrightarrow>
     (\<exists>m. chain (production_steps (package_of pf)) (spread raw) = Inr m
        \<and> processed = JObj (if dev then set_prop ''__dev_timestamp'' (JNum now) m else m))"
  by (auto simp: processManifest_chain bind_Inr_iff)

lemma processed_field:
  assumes "processManifest pf now raw dev = Inr processed"
    and "(K, g) \<in> set (production_steps (package_of pf))"
  shows "\<exists>r. g (field raw K) = Inr r
           \<and> field processed K = (case r of None \<Rightarrow> field raw K | Some v \<Rightarrow> Some v)"
proof -
  from assms(1) obtain m where
    c: "chain (production_steps (package_of pf)) (spread raw) = Inr m"
    and p: "processed = JObj (if dev then set_prop ''__dev_timestamp'' (JNum now) m else m)"
    by (auto simp: processManifest_Inr)
  from assms(2) have K: "K \<noteq> []" "hd K \<notin> set ''0123456789''" "K \<noteq> ''__dev_timestamp''"
    by (auto simp: production_steps_def)
  from p K have "field processed K = map_of m K"
    by (simp add: field_def map_of_set_prop)
  moreover from K have "map_of (spread raw) K = field raw K"
    by (simp add: map_of_spread)
  moreover from chain_key [OF c distinct_production assms(2)] obtain r where
    "g (map_of (spread raw) K) = Inr r"
    "map_of m K = (case r of None \<Rightarrow> map_of (spread raw) K | Some v \<Rightarrow> Some v)"
    by blast
  ultimately show ?thesis by (cases r) auto
qed

lemma get_prop_field:
  "get_prop (Some p) k = Inr d \<Longrightarrow> d = field p k"
  by (cases p) (simp_all add: field_def)

subsection \<open>The runtime raises only type errors\<close>

lemma teo_Inr [simp]: "type_errors_only (Inr v)"
  by (simp add: type_errors_only_def)

lemma teo_TypeError [simp]: "type_errors_only (Inl TypeError)"
  by (simp add: type_errors_only_def)

lemma teo_Error [simp]: "\<not> type_errors_only (Inl (Error msg))"
  by (simp add: type_errors_only_def)

lemma teo_bind: "type_errors_only m \<Longrightarrow> (\<And>v. type_errors_only (f v)) \<Longrightarrow> type_errors_only (bind m f)"
  by (cases m) (simp_all add: type_errors_only_def)

lemma teo_if: "type_errors_only a \<Longrightarrow> type_errors_only b \<Longrightarrow> type_errors_only (if c then a else b)"
  by simp

lemma teo_get_prop: "type_errors_only (get_prop x k)"
  by (cases "(x, k)" rule: get_prop.cases) simp_all

lemma teo_put_prop: "type_errors_only (put_prop w k v)"
  by (cases "(w, k, v)" rule: put_prop.cases) simp_all

lemma teo_call_replace: "type_errors_only (call_replace rep x)"
  by (cases "(rep, x)" rule: call_replace.cases) simp_all

lemma teo_map_err: "(\<And>x. type_errors_only (f x)) \<Longrightarrow> type_errors_only (map_err f xs)"
  by (induction xs) (simp_all add: teo_bind)

lemma teo_array_map: "(\<And>x. type_errors_only (f x)) \<Longrightarrow> type_errors_only (array_map f v)"
  by (cases "(f, v)" rule: array_map.cases) (simp_all add: teo_bind teo_map_err)

lemma teo_for_each: "(\<And>x s. type_errors_only (f x s)) \<Longrightarrow> type_errors_only (for_each f xs s)"
  by (induction xs arbitrary: s) (simp_all add: teo_bind)

lemma teo_array_for_each:
  "(\<And>x s. type_errors_only (f x s)) \<Longrightarrow> type_errors_only (array_for_each f v s)"
  by (cases "(f, v, s)" rule: array_for_each.cases) (simp_all add: teo_for_each)

lemma teo_to_string: "type_errors_only (to_string x)" "type_errors_only (to_strings xs)"
  by (induction x and xs rule: to_string_to_strings.induct) (simp_all add: teo_bind)

lemma teo_modify: "(\<And>x. type_errors_only (g x)) \<Longrightarrow> type_errors_only (modify K g m)"
  by (auto simp: modify_def intro!: teo_bind split: option.splits)

lemma teo_chain:
  "(\<And>Kg x. Kg \<in> set l \<Longrightarrow> type_errors_only (snd Kg x)) \<Longrightarrow> type_errors_only (chain l m)"
  by (induction l arbitrary: m) (auto intro!: teo_bind teo_modify)

lemma teo_backfill_value: "type_errors_only (backfill_value p k x)"
  by (simp add: backfill_value_def teo_bind teo_get_prop)

lemma teo_nested_value: "type_errors_only (nested_value k2 rep x)"
  by (auto simp: nested_value_def intro!: teo_bind teo_call_replace teo_put_prop split: option.splits)

lemma teo_list_value: "(\<And>x. type_errors_only (f x)) \<Longrightarrow> type_errors_only (list_value f x)"
  by (simp add: list_value_def teo_bind teo_array_map)

lemma teo_replaceFileExtension: "type_errors_only (replaceFileExtension x)"
  by (simp add: replaceFileExtension_def teo_call_replace)

lemma teo_rewrite_list_member: "type_errors_only (rewrite_list_member k x)"
  by (auto simp: rewrite_list_member_def
      intro!: teo_bind teo_get_prop teo_array_map teo_replaceFileExtension teo_put_prop)

lemma teo_rewrite_content_script: "type_errors_only (rewrite_content_script x)"
  by (simp add: rewrite_content_script_def teo_bind teo_rewrite_list_member)

lemma teo_rewrite_res: "type_errors_only (rewrite_res x)"
  by (auto simp: rewrite_res_def test_script_ext_def
      intro!: teo_bind teo_to_string teo_replaceFileExtension)

lemma teo_rewrite_resource: "type_errors_only (rewrite_resource x)"
  by (auto simp: rewrite_resource_def
      intro!: teo_bind teo_get_prop teo_array_map teo_rewrite_res teo_put_prop)

lemma teo_processManifest: "type_errors_only (processManifest pf now raw dev)"
  unfolding processManifest_chain
  by (rule teo_bind [OF teo_chain])
     (auto simp: production_steps_def teo_backfill_value teo_nested_value
        intro!: teo_list_value teo_rewrite_content_script teo_rewrite_resource)

lemma teo_getEntry_of: "type_errors_only (getEntry_of cwd v)"
  by (cases "(cwd, v)" rule: getEntry_of.cases) simp_all

lemma teo_getBackgroundEntries: "type_errors_only (getBackgroundEntries cwd m)"
  by (auto simp: getBackgroundEntries_def Let_def intro!: teo_bind teo_get_prop teo_getEntry_of)

lemma teo_getContentScriptEntries: "type_errors_only (getContentScriptEntries cwd m)"
  by (auto simp: getContentScriptEntries_def
      intro!: teo_bind teo_get_prop teo_getEntry_of teo_array_for_each)

subsection \<open>Entry maps\<close>

lemma keys_set_prop: "fst ` set (set_prop k v m) = insert k (fst ` set m)"
  by (induction m) auto

lemma distinct_set_prop: "distinct (map fst (set_prop k v m)) = distinct (map fst m)"
  by (induction m) (auto simp: keys_set_prop)

lemma keys_add_entry:
  "fst ` set (add_entry e m) = (if name e = ''__proto__'' then {} else {name e}) \<union> fst ` set m"
  by (simp add: add_entry_def keys_set_prop)

lemma distinct_add_entry: "distinct (map fst (add_entry e m)) = distinct (map fst m)"
  by (simp add: add_entry_def distinct_set_prop)

lemma map_of_add_entry:
  "map_of (add_entry e m) n =
     (if n = name e \<and> name e \<noteq> ''__proto__'' then Some (path e) else map_of m n)"
  by (simp add: add_entry_def map_of_set_prop)

lemma keys_fold_add_entry:
  "fst ` set (fold add_entry Q m) = (name ` set Q - {''__proto__''}) \<union> fst ` set m"
  by (induction Q arbitrary: m) (auto simp: keys_add_entry split: if_splits)

lemma distinct_fold_add_entry:
  "distinct (map fst (fold add_entry Q m)) = distinct (map fst m)"
  by (induction Q arbitrary: m) (simp_all add: distinct_add_entry)

lemma map_of_fold_add_entry_other:
  "n \<notin> name ` set Q \<Longrightarrow> map_of (fold add_entry Q m) n = map_of m n"
  by (induction Q arbitrary: m) (auto simp: map_of_add_entry)

lemma inner_fold_entries:
  "fold (\<lambda>src es. if P src then add_entry (f src) es else es) srcs m
     = fold add_entry (map f (filter P srcs)) m"
  by (induction srcs arbitrary: m) simp_all

lemma outer_fold_entries:
  "fold (\<lambda>(htmlFile, srcs) entries.
           fold (\<lambda>src es. if page_script src
                           then add_entry (page_entry cwd htmlFile src) es else es)
                srcs entries) files m
     = fold add_entry (discovered cwd files) m"
proof (induction files arbitrary: m)
  case Nil
  then show ?case by (simp add: discovered_def)
next
  case (Cons hf files)
  obtain h srcs where hf: "hf = (h, srcs)" by (cases hf)
  have "discovered cwd (hf # files)
          = map (page_entry cwd h) (filter page_script srcs) @ discovered cwd files"
    by (simp add: discovered_def hf)
  with Cons.IH show ?case by (simp add: hf inner_fold_entries)
qed

lemma getExtensionPageEntries_fold:
  "getExtensionPageEntries cwd files = fold add_entry (discovered cwd files) []"
  by (simp add: getExtensionPageEntries_def outer_fold_entries)

lemma length_discovered:
  "length (discovered cwd files)
     = sum_list (map (\<lambda>(htmlFile, srcs). length (filter page_script srcs)) files)"
  by (induction files) (auto simp: discovered_def)


lemma shutdown_in_progress_returns:
  "shutdownInProgress fl \<Longrightarrow> shutdown fl = (Returned, fl)"
  by (simp add: shutdown_def)

lemma signals_in_progress:
  "shutdownInProgress fl \<Longrightarrow> signals n fl = replicate n Returned"
  by (induction n) (simp_all add: shutdown_def)

lemma dev_timestamp_is_now:
  "processManifest pf now raw True = Inr processed \<Longrightarrow>
     field processed ''__dev_timestamp'' = Some (JNum now)"
  by (auto simp: processManifest_Inr field_def map_of_set_prop)

lemma notifier_by_flags:
  "\<not> hasErrors info \<Longrightarrow>
   (some_changed (contentScript entries) (changed_files info) \<longrightarrow>
      watch_callback True (Some clients) entries False (Some info)
        = concat (map (\<lambda>c. [Send (client_id c) ''reload-background'',
                             SetTimeout 500 (client_id c) ''reload-content''])
                   (filter (\<lambda>c. readyState c = OPEN) clients)))
   \<and> (some_changed (extensionPage entries) (changed_files info)
        \<and> \<not> some_changed (background entries) (changed_files info)
        \<and> \<not> some_changed (contentScript entries) (changed_files info) \<longrightarrow>
      watch_callback True (Some clients) entries False (Some info)
        = map (\<lambda>c. Send (client_id c) ''reload-page'')
            (filter (\<lambda>c. readyState c = OPEN) clients))"
  by (induction clients)
     (auto simp: watch_callback_def notifyClientsToReload_def notify_client_def Let_def)

lemma poll_unchanged:
  "poll (Seen (Some t)) (replicate m (Got (Some t)) @ obs)
     = replicate m False @ poll (Seen (Some t)) obs"
  by (induction m) (simp_all add: checkForUpdates_def)

subsection \<open>Manifest processing\<close>

text \<open>
  Claim C1.  When the manifest's \<^verbatim>\<open>background.service_worker\<close> is a path ending in
  \<^verbatim>\<open>.js\<close>, \<^verbatim>\<open>.jsx\<close>, \<^verbatim>\<open>.ts\<close> or \<^verbatim>\<open>.tsx\<close>, the processed manifest's
  \<^verbatim>\<open>background.service_worker\<close> is a path ending in \<^verbatim>\<open>.js\<close>; for
  \<^verbatim>\<open>src/background/index.ts\<close> it is \<^verbatim>\<open>src/background/index.js\<close>.  This holds
  in both modes and whatever else the manifest and the package metadata contain.
\<close>

theorem service_worker_gets_js:
  assumes "processManifest pf now raw dev = Inr processed"
    and "service_worker raw = Some (JStr s)"
    and "script_ext s \<noteq> None"
  shows "\<exists>t. service_worker processed = Some (JStr t) \<and> suffix ''.js'' t
           \<and> (s = ''src/background/index.ts'' \<longrightarrow> t = ''src/background/index.js'')"
proof -
  have "(''background'', nested_value ''service_worker'' ''.js'')
          \<in> set (production_steps (package_of pf))"
    by (simp add: production_steps_def)
  from processed_field [OF assms(1) this] obtain r where
    r: "nested_value ''service_worker'' ''.js'' (field raw ''background'') = Inr r"
    and f: "field processed ''background''
              = (case r of None \<Rightarrow> field raw ''background'' | Some v \<Rightarrow> Some v)"
    by blast
  from assms(2,3) have "s \<noteq> []" by (auto simp: script_ext_def)
  with assms(2) r obtain w where w: "r = Some w"
    by (cases r)
       (auto simp: nested_value_def service_worker_def bind_Inr_iff
          split: if_splits option.splits)
  with r obtain fs s' where "field raw ''background'' = Some (JObj fs)"
    "map_of fs ''service_worker'' = Some (JStr s')"
    "w = JObj (set_prop ''service_worker'' (JStr (replace_script_ext ''.js'' s')) fs)"
    by (auto elim: nested_value_Some)
  with assms(2) f w have sw: "service_worker processed = Some (JStr (replace_script_ext ''.js'' s))"
    by (simp add: service_worker_def map_of_set_prop)
  from assms(3) have "suffix ''.js'' (replace_script_ext ''.js'' s)"
    by (auto simp: replace_script_ext_def suffix_def)
  moreover have "replace_script_ext ''.js'' ''src/background/index.ts'' = ''src/background/index.js''"
    by code_simp
  ultimately show ?thesis using sw by auto
qed

theorem service_worker_gets_js_witness:
  "processManifest None 0
     (JObj [(''manifest_version'', JNum 3),
            (''background'', JObj [(''service_worker'', JStr ''src/background/index.ts'')])])
     False
   = Inr (JObj [(''manifest_version'', JNum 3),
                (''background'', JObj [(''service_worker'', JStr ''src/background/index.js'')])])
   \<and> service_worker
         (JObj [(''manifest_version'', JNum 3),
                (''background'', JObj [(''service_worker'', JStr ''src/background/index.ts'')])])
       = Some (JStr ''src/background/index.ts'')
   \<and> script_ext ''src/background/index.ts'' \<noteq> None
   \<and> service_worker
         (JObj [(''manifest_version'', JNum 3),
                (''background'', JObj [(''service_worker'', JStr ''src/background/index.js'')])])
       = Some (JStr ''src/background/index.js'')"
proof -
  let ?raw = "JObj [(''manifest_version'', JNum 3),
                    (''background'', JObj [(''service_worker'', JStr ''src/background/index.ts'')])]"
  let ?out = "JObj [(''manifest_version'', JNum 3),
                    (''background'', JObj [(''service_worker'', JStr ''src/background/index.js'')])]"
  have p: "processManifest None 0 ?raw False = Inr ?out" by code_simp
  have s: "service_worker ?raw = Some (JStr ''src/background/index.ts'')" by code_simp
  have e: "script_ext ''src/background/index.ts'' \<noteq> None" by code_simp
  from service_worker_gets_js [OF p s e] p s e show ?thesis by auto
qed

text \<open>
  Claim C2.  In production mode the processor is idempotent: processing the processed
  manifest again, with the same package metadata, returns it unchanged.
\<close>

theorem processManifest_idempotent:
  assumes "processManifest pf now raw False = Inr processed"
  shows "processManifest pf now' processed False = Inr processed"
proof -
  from assms obtain m where
    c: "chain (production_steps (package_of pf)) (spread raw) = Inr m"
    and p: "processed = JObj m"
    by (auto simp: processManifest_chain bind_Inr_iff)
  from chain_idem [OF c distinct_production settles_production] p show ?thesis
    by (simp add: processManifest_chain)
qed

theorem processManifest_idempotent_witness:
  "processManifest (Some (JObj [(''name'', JStr ''my-ext''), (''version'', JStr ''1.0.0'')])) 0
     (JObj [(''description'', JStr []),
            (''background'', JObj [(''service_worker'', JStr ''src/background/index.ts'')]),
            (''content_scripts'',
               JArr [JObj [(''js'', JArr [JStr ''src/content.tsx'']),
                           (''css'', JArr [JStr ''src/content.css''])]]),
            (''web_accessible_resources'',
               JArr [JObj [(''resources'', JArr [JStr ''inject.ts'', JStr ''logo.png''])]]),
            (''action'', JObj [(''default_popup'', JStr ''popup.tsx'')])])
     False
   = Inr (JObj [(''description'', JStr []),
            (''background'', JObj [(''service_worker'', JStr ''src/background/index.js'')]),
            (''content_scripts'',
               JArr [JObj [(''js'', JArr [JStr ''src/content.js'']),
                           (''css'', JArr [JStr ''src/content.css''])]]),
            (''web_accessible_resources'',
               JArr [JObj [(''resources'', JArr [JStr ''inject.js'', JStr ''logo.png''])]]),
            (''action'', JObj [(''default_popup'', JStr ''popup.html'')]),
            (''name'', JStr ''my-ext''), (''version'', JStr ''1.0.0'')])
   \<and> processManifest (Some (JObj [(''name'', JStr ''my-ext''), (''version'', JStr ''1.0.0'')])) 0
     (JObj [(''description'', JStr []),
            (''background'', JObj [(''service_worker'', JStr ''src/background/index.js'')]),
            (''content_scripts'',
               JArr [JObj [(''js'', JArr [JStr ''src/content.js'']),
                           (''css'', JArr [JStr ''src/content.css''])]]),
            (''web_accessible_resources'',
               JArr [JObj [(''resources'', JArr [JStr ''inject.js'', JStr ''logo.png''])]]),
            (''action'', JObj [(''default_popup'', JStr ''popup.html'')]),
            (''name'', JStr ''my-ext''), (''version'', JStr ''1.0.0'')])
     False
   = Inr (JObj [(''description'', JStr []),
            (''background'', JObj [(''service_worker'', JStr ''src/background/index.js'')]),
            (''content_scripts'',
               JArr [JObj [(''js'', JArr [JStr ''src/content.js'']),
                           (''css'', JArr [JStr ''src/content.css''])]]),
            (''web_accessible_resources'',
               JArr [JObj [(''resources'', JArr [JStr ''inject.js'', JStr ''logo.png''])]]),
            (''action'', JObj [(''default_popup'', JStr ''popup.html'')]),
            (''name'', JStr ''my-ext''), (''version'', JStr ''1.0.0'')])"
proof -
  let ?pkg = "Some (JObj [(''name'', JStr ''my-ext''), (''version'', JStr ''1.0.0'')])"
  let ?raw = "JObj [(''description'', JStr []),
            (''background'', JObj [(''service_worker'', JStr ''src/background/index.ts'')]),
            (''content_scripts'',
               JArr [JObj [(''js'', JArr [JStr ''src/content.tsx'']),
                           (''css'', JArr [JStr ''src/content.css''])]]),
            (''web_accessible_resources'',
               JArr [JObj [(''resources'', JArr [JStr ''inject.ts'', JStr ''logo.png''])]]),
            (''action'', JObj [(''default_popup'', JStr ''popup.tsx'')])]"
  let ?out = "JObj [(''description'', JStr []),
            (''background'', JObj [(''service_worker'', JStr ''src/background/index.js'')]),
            (''content_scripts'',
               JArr [JObj [(''js'', JArr [JStr ''src/content.js'']),
                           (''css'', JArr [JStr ''src/content.css''])]]),
            (''web_accessible_resources'',
               JArr [JObj [(''resources'', JArr [JStr ''inject.js'', JStr ''logo.png''])]]),
            (''action'', JObj [(''default_popup'', JStr ''popup.html'')]),
            (''name'', JStr ''my-ext''), (''version'', JStr ''1.0.0'')]"
  have p: "processManifest ?pkg 0 ?raw False = Inr ?out" by code_simp
  from processManifest_idempotent [OF p, of 0] p show ?thesis by simp
qed

text \<open>
  Claim C8, as stated: a member \<^verbatim>\<open>name\<close>, \<^verbatim>\<open>version\<close> or \<^verbatim>\<open>description\<close> that is
  present in the manifest is left unchanged.  It is not: the processor tests the member for
  truthiness, so a manifest whose description is the empty string gets the description of
  the package metadata.
\<close>

theorem backfill_claim_counterexample:
  "processManifest (Some (JObj [(''description'', JStr ''From package.json'')])) 0
     (JObj [(''name'', JStr ''My Extension''), (''description'', JStr [])]) False
   = Inr (JObj [(''name'', JStr ''My Extension''), (''description'', JStr ''From package.json'')])
   \<and> field (JObj [(''name'', JStr ''My Extension''), (''description'', JStr [])]) ''description''
       = Some (JStr [])
   \<and> field (JObj [(''name'', JStr ''My Extension''), (''description'', JStr ''From package.json'')])
         ''description''
       \<noteq> field (JObj [(''name'', JStr ''My Extension''), (''description'', JStr [])]) ''description''"
  by code_simp

text \<open>
  Claim C8, amended.  Each of the three members is replaced by the package metadata's
  value exactly when the manifest's member is absent or falsy (the empty string, null,
  false or 0) and the package metadata's value is truthy; in every other case the member
  is as in the manifest, absent when it was absent.
\<close>

theorem backfill_only_falsy:
  assumes "processManifest pf now raw dev = Inr processed"
    and "k \<in> {''name'', ''version'', ''description''}"
  shows "field processed k =
           (if \<not> truthy (field raw k) \<and> truthy (field (package_of pf) k)
            then field (package_of pf) k else field raw k)"
proof -
  from assms(2) have "(k, backfill_value (package_of pf) k) \<in> set (production_steps (package_of pf))"
    by (auto simp: production_steps_def)
  from processed_field [OF assms(1) this] obtain r where
    r: "backfill_value (package_of pf) k (field raw k) = Inr r"
    and f: "field processed k = (case r of None \<Rightarrow> field raw k | Some v \<Rightarrow> Some v)"
    by blast
  show ?thesis
  proof (cases "truthy (field raw k)")
    case True
    with r f show ?thesis by (simp add: backfill_value_def)
  next
    case False
    show ?thesis
    proof (cases "get_prop (Some (package_of pf)) k")
      case (Inl e)
      with False r show ?thesis by (simp add: backfill_value_def)
    next
      case (Inr d)
      with False r have r': "r = (if truthy d then d else None)"
        by (auto simp: backfill_value_def)
      from get_prop_field [OF Inr] have d: "field (package_of pf) k = d" by simp
      from False f r' show ?thesis unfolding d by (cases d) auto
    qed
  qed
qed

theorem backfill_only_falsy_witness:
  "processManifest (Some (JObj [(''name'', JStr ''my-ext''), (''version'', JStr ''1.0.0'')])) 0
     (JObj [(''version'', JStr ''2.1''), (''description'', JStr [])]) False
   = Inr (JObj [(''version'', JStr ''2.1''), (''description'', JStr []), (''name'', JStr ''my-ext'')])
   \<and> ''name'' \<in> {''name'', ''version'', ''description''}
   \<and> field (JObj [(''version'', JStr ''2.1''), (''description'', JStr []), (''name'', JStr ''my-ext'')])
         ''name'' = Some (JStr ''my-ext'')"
proof -
  have p: "processManifest (Some (JObj [(''name'', JStr ''my-ext''), (''version'', JStr ''1.0.0'')])) 0
     (JObj [(''version'', JStr ''2.1''), (''description'', JStr [])]) False
   = Inr (JObj [(''version'', JStr ''2.1''), (''description'', JStr []), (''name'', JStr ''my-ext'')])"
    by code_simp
  have k: "''name'' \<in> {''name'', ''version'', ''description''}" by simp
  from backfill_only_falsy [OF p k] p k show ?thesis
    by (simp add: field_def package_of_def)
qed

subsection \<open>The missing manifest\<close>

text \<open>
  Claim C9.  Without a manifest.json, entry discovery and the manifest plugin's
  \<open>buildStart\<close> both fail with the error \<^verbatim>\<open>No manifest.json found in project root\<close>:
  no entries are returned, and the build that would emit the manifest asset stops there.
  With a manifest.json that error is never the result (what can still be raised is the
  runtime's TypeError on a malformed document).
\<close>

theorem missing_manifest_is_fatal:
  "(manifestJson fs = None \<longrightarrow>
      discoverEntries fs = Inl no_manifest
      \<and> buildStart fs now st = Inl no_manifest
      \<and> run_build fs now st = Inl no_manifest)
   \<and> (manifestJson fs \<noteq> None \<longrightarrow>
      discoverEntries fs \<noteq> Inl no_manifest \<and> buildStart fs now st \<noteq> Inl no_manifest)"
proof (intro conjI impI)
  assume "manifestJson fs = None"
  then show "discoverEntries fs = Inl no_manifest" "buildStart fs now st = Inl no_manifest"
    "run_build fs now st = Inl no_manifest"
    by (simp_all add: discoverEntries_def buildStart_def run_build_def)
next
  assume "manifestJson fs \<noteq> None"
  then obtain m where m: "manifestJson fs = Some m" by blast
  have "type_errors_only (discoverEntries fs)"
    by (auto simp: discoverEntries_def m
        intro!: teo_bind teo_getBackgroundEntries teo_getContentScriptEntries)
  then show "discoverEntries fs \<noteq> Inl no_manifest"
    by (auto simp: no_manifest_def)
  have "type_errors_only (buildStart fs now st)"
    by (auto simp: buildStart_def m intro!: teo_bind teo_processManifest)
  then show "buildStart fs now st \<noteq> Inl no_manifest"
    by (auto simp: no_manifest_def)
qed

theorem missing_manifest_is_fatal_witness:
  "manifestJson \<lparr> root = ''/proj'', manifestJson = None, packageJson = None, html = [] \<rparr> = None
   \<and> discoverEntries \<lparr> root = ''/proj'', manifestJson = None, packageJson = None, html = [] \<rparr>
       = Inl no_manifest
   \<and> buildStart \<lparr> root = ''/proj'', manifestJson = None, packageJson = None, html = [] \<rparr> 0
         \<lparr> manifestContent = None, isDevelopment = False \<rparr>
       = Inl no_manifest
   \<and> run_build \<lparr> root = ''/proj'', manifestJson = None, packageJson = None, html = [] \<rparr> 0
         \<lparr> manifestContent = None, isDevelopment = False \<rparr>
       = Inl no_manifest
   \<and> manifestJson \<lparr> root = ''/proj'', manifestJson = Some (JObj [(''manifest_version'', JNum 3)]),
                     packageJson = None, html = [] \<rparr> \<noteq> None
   \<and> discoverEntries \<lparr> root = ''/proj'', manifestJson = Some (JObj [(''manifest_version'', JNum 3)]),
                        packageJson = None, html = [] \<rparr> \<noteq> Inl no_manifest
   \<and> buildStart \<lparr> root = ''/proj'', manifestJson = Some (JObj [(''manifest_version'', JNum 3)]),
                   packageJson = None, html = [] \<rparr> 0
         \<lparr> manifestContent = None, isDevelopment = False \<rparr> \<noteq> Inl no_manifest"
  using
    missing_manifest_is_fatal
      [of "\<lparr> root = ''/proj'', manifestJson = None, packageJson = None, html = [] \<rparr>"
          0 "\<lparr> manifestContent = None, isDevelopment = False \<rparr>"]
    missing_manifest_is_fatal
      [of "\<lparr> root = ''/proj'', manifestJson = Some (JObj [(''manifest_version'', JNum 3)]),
              packageJson = None, html = [] \<rparr>"
          0 "\<lparr> manifestContent = None, isDevelopment = False \<rparr>"]
  by simp

subsection \<open>Entry discovery\<close>

text \<open>
  Claim C3, as stated: N script tags whose \<^verbatim>\<open>src\<close> is present and is not an absolute
  URL give N entries, name collisions apart.  The code's guard is another one: the source
  must be non-empty and must not start with \<^verbatim>\<open>http\<close>.  A page whose only script is
  the relative file \<^verbatim>\<open>http-client.js\<close>, or one whose only script tag has an empty
  \<^verbatim>\<open>src\<close>, has one such tag and yields no entry; nor does the script
  \<^verbatim>\<open>__proto__.js\<close>, whose entry name an object literal does not store.
\<close>

theorem page_entries_claim_counterexample:
  "length (spec_page_scripts [(''popup.html'', [''http-client.js''])]) = 1
   \<and> length (getExtensionPageEntries ''/proj'' [(''popup.html'', [''http-client.js''])]) = 0
   \<and> length (spec_page_scripts [(''popup.html'', [[]])]) = 1
   \<and> length (getExtensionPageEntries ''/proj'' [(''popup.html'', [[]])]) = 0
   \<and> length (spec_page_scripts [(''popup.html'', [''__proto__.js''])]) = 1
   \<and> length (getExtensionPageEntries ''/proj'' [(''popup.html'', [''__proto__.js''])]) = 0"
  by code_simp

text \<open>
  Claim C3, amended.  Let N be the number of script tags, over all HTML files, whose
  \<^verbatim>\<open>src\<close> is non-empty and does not start with \<^verbatim>\<open>http\<close>; \<open>discovered\<close> lists
  their entries in discovery order and has length N.  The result has one entry for each
  distinct name among them (the name \<^verbatim>\<open>__proto__\<close> excepted, which an object literal
  does not store), so exactly N entries when the names are pairwise distinct; and a name
  that occurs several times is mapped to the path of its last occurrence.
\<close>

theorem page_entries_last_wins:
  "length (discovered cwd files)
     = sum_list (map (\<lambda>(htmlFile, srcs). length (filter page_script srcs)) files)
   \<and> distinct (map fst (getExtensionPageEntries cwd files))
   \<and> length (getExtensionPageEntries cwd files)
       = card (name ` set (discovered cwd files) - {''__proto__''})
   \<and> (distinct (map name (discovered cwd files))
        \<and> ''__proto__'' \<notin> name ` set (discovered cwd files)
      \<longrightarrow> length (getExtensionPageEntries cwd files) = length (discovered cwd files))
   \<and> (discovered cwd files = before @ e # after \<and> name e \<notin> name ` set after
        \<and> name e \<noteq> ''__proto__''
      \<longrightarrow> map_of (getExtensionPageEntries cwd files) (name e) = Some (path e))"
proof -
  let ?E = "getExtensionPageEntries cwd files" and ?Q = "discovered cwd files"
  have d: "distinct (map fst ?E)"
    by (simp add: getExtensionPageEntries_fold distinct_fold_add_entry)
  have k: "fst ` set ?E = name ` set ?Q - {''__proto__''}"
    by (simp add: getExtensionPageEntries_fold keys_fold_add_entry)
  from d have "length ?E = card (set (map fst ?E))"
    by (simp add: distinct_card del: set_map)
  with k have c: "length ?E = card (name ` set ?Q - {''__proto__''})" by simp
  have n: "length ?E = length ?Q"
    if "distinct (map name ?Q)" "''__proto__'' \<notin> name ` set ?Q"
  proof -
    from that(2) have "name ` set ?Q - {''__proto__''} = set (map name ?Q)" by auto
    with c have "length ?E = card (set (map name ?Q))" by simp
    with that(1) show ?thesis by (simp add: distinct_card del: set_map)
  qed
  have l: "map_of ?E (name e) = Some (path e)"
    if "?Q = before @ e # after" "name e \<notin> name ` set after" "name e \<noteq> ''__proto__''"
  proof -
    from that(1) have "?E = fold add_entry after (add_entry e (fold add_entry before []))"
      by (simp add: getExtensionPageEntries_fold)
    with that(2,3) show ?thesis
      by (simp add: map_of_fold_add_entry_other map_of_add_entry)
  qed
  from d c n l length_discovered show ?thesis by blast
qed

theorem page_entries_last_wins_witness:
  "discovered ''/proj'' [(''pages/popup.html'', [''popup.tsx'', ''https://cdn.example.com/x.js'']),
                        (''popup.html'', [''pages/popup.jsx''])]
     = [\<lparr> name = ''pages/popup'', path = ''./pages/popup.tsx'' \<rparr>]
       @ \<lparr> name = ''pages/popup'', path = ''./pages/popup.jsx'' \<rparr> # []
   \<and> map_of (getExtensionPageEntries ''/proj''
               [(''pages/popup.html'', [''popup.tsx'', ''https://cdn.example.com/x.js'']),
                (''popup.html'', [''pages/popup.jsx''])]) ''pages/popup''
       = Some ''./pages/popup.jsx''
   \<and> length (getExtensionPageEntries ''/proj''
               [(''pages/popup.html'', [''popup.tsx'', ''https://cdn.example.com/x.js'']),
                (''popup.html'', [''pages/popup.jsx''])]) = 1
   \<and> distinct (map name (discovered ''/proj'' [(''popup.html'', [''popup.tsx'', ''lib/util.js''])]))
   \<and> ''__proto__'' \<notin> name ` set (discovered ''/proj'' [(''popup.html'', [''popup.tsx'', ''lib/util.js''])])
   \<and> length (getExtensionPageEntries ''/proj'' [(''popup.html'', [''popup.tsx'', ''lib/util.js''])]) = 2"
proof -
  let ?F = "[(''pages/popup.html'', [''popup.tsx'', ''https://cdn.example.com/x.js'']),
             (''popup.html'', [''pages/popup.jsx''])]"
  let ?G = "[(''popup.html'', [''popup.tsx'', ''lib/util.js''])]"
  let ?e = "\<lparr> name = ''pages/popup'', path = ''./pages/popup.jsx'' \<rparr>"
  have q: "discovered ''/proj'' ?F
             = [\<lparr> name = ''pages/popup'', path = ''./pages/popup.tsx'' \<rparr>] @ ?e # []"
    by code_simp
  have g: "discovered ''/proj'' ?G
             = [\<lparr> name = ''popup'', path = ''./popup.tsx'' \<rparr>,
                \<lparr> name = ''lib/util'', path = ''./lib/util.js'' \<rparr>]"
    by code_simp
  have n: "name ?e \<notin> name ` set []" "name ?e \<noteq> ''__proto__''" by simp_all
  from page_entries_last_wins
         [of "''/proj''" ?F "[\<lparr> name = ''pages/popup'', path = ''./pages/popup.tsx'' \<rparr>]" ?e "[]"]
       q n
  have a: "map_of (getExtensionPageEntries ''/proj'' ?F) ''pages/popup'' = Some ''./pages/popup.jsx''"
    "length (getExtensionPageEntries ''/proj'' ?F) = 1"
    by simp_all
  from g have d: "distinct (map name (discovered ''/proj'' ?G))"
    "''__proto__'' \<notin> name ` set (discovered ''/proj'' ?G)"
    by simp_all
  with page_entries_last_wins [of "''/proj''" ?G "[]" ?e "[]"] g
  have b: "length (getExtensionPageEntries ''/proj'' ?G) = 2" by simp
  from q a d b show ?thesis by simp
qed

text \<open>
  Claim C4.  The entry name is meant to be the relative path without its extension.  The
  code removes the first occurrence of the extension's text, not the extension at the end:
  for a content script \<^verbatim>\<open>vendor/chart.js/dist/chart.js\<close> the name is
  \<^verbatim>\<open>vendor/chart/dist/chart.js\<close> (a directory name changed, the extension kept)
  where the claim gives \<^verbatim>\<open>vendor/chart.js/dist/chart\<close>; for
  \<^verbatim>\<open>src/data.json.js\<close> it is \<^verbatim>\<open>src/dataon.js\<close>.
\<close>

theorem entry_name_first_occurrence:
  "getEntry ''/proj'' ''vendor/chart.js/dist/chart.js''
     = \<lparr> name = ''vendor/chart/dist/chart.js'', path = ''./vendor/chart.js/dist/chart.js'' \<rparr>
   \<and> getContentScriptEntries ''/proj''
         (JObj [(''content_scripts'',
                 JArr [JObj [(''js'', JArr [JStr ''vendor/chart.js/dist/chart.js''])]])])
     = Inr [(''vendor/chart/dist/chart.js'', ''./vendor/chart.js/dist/chart.js'')]
   \<and> getEntry ''/proj'' ''src/data.json.js''
     = \<lparr> name = ''src/dataon.js'', path = ''./src/data.json.js'' \<rparr>"
  by code_simp




subsection \<open>The socket notifier\<close>

text \<open>
  Claim C5.  A rebuild that changed only an extension-page file is meant to send
  \<^verbatim>\<open>reload-page\<close> and nothing else (the code's comment: ``If only extension page
  changed, reload only that'').  The notifier decides the category of a change by looking
  for an entry name anywhere inside a changed file's path.  With a content script
  \<^verbatim>\<open>src/content.ts\<close> and a page script \<^verbatim>\<open>src/content-ui/popup.tsx\<close>, an error-free
  rebuild that changed only the page script counts as a content-script change: the open
  client is sent \<^verbatim>\<open>reload-background\<close> and gets the timer for
  \<^verbatim>\<open>reload-content\<close>; \<^verbatim>\<open>reload-page\<close> is not sent.
\<close>

theorem page_change_reloads_background:
  "changed_files
     \<lparr> hasErrors = False,
       chunks = Some [Some [\<lparr> moduleType = ''javascript/auto'',
                              nameForCondition = Some ''/proj/src/content-ui/popup.tsx'' \<rparr>]] \<rparr>
     = [''/proj/src/content-ui/popup.tsx'']
   \<and> changed_only ''/proj'' [(''src/content-ui/popup'', ''./src/content-ui/popup.tsx'')]
         [''/proj/src/content-ui/popup.tsx'']
   \<and> ''/proj/src/content-ui/popup.tsx''
         \<notin> set (map (entry_file ''/proj'')
                   [(''src/background'', ''./src/background.ts''),
                    (''src/content'', ''./src/content.ts'')])
   \<and> watch_callback True
         (Some [\<lparr> client_id = 1, readyState = OPEN \<rparr>, \<lparr> client_id = 2, readyState = CLOSED \<rparr>])
         \<lparr> background = [(''src/background'', ''./src/background.ts'')],
           contentScript = [(''src/content'', ''./src/content.ts'')],
           extensionPage = [(''src/content-ui/popup'', ''./src/content-ui/popup.tsx'')] \<rparr>
         False
         (Some \<lparr> hasErrors = False,
                  chunks = Some [Some [\<lparr> moduleType = ''javascript/auto'',
                                         nameForCondition = Some ''/proj/src/content-ui/popup.tsx'' \<rparr>]] \<rparr>)
       = [Send 1 ''reload-background'', SetTimeout 500 1 ''reload-content'']"
  by code_simp

subsection \<open>Shutdown\<close>

text \<open>
  Claim C6.  A second signal during a shutdown is meant to force the exit, and the handler
  has a branch for it (\<^verbatim>\<open>if (forceExit) { ... process.exit(1) }\<close>).  The branch is
  placed behind \<^verbatim>\<open>if (shutdownInProgress) return\<close>, and both flags are set together:
  the first signal starts the shutdown sequence, and the handler's run on the second
  signal, as on every later one, returns without exiting.
\<close>

theorem second_signal_returns:
  "shutdown initial_flags
     = (Started, \<lparr> forceExit = True, shutdownInProgress = True \<rparr>)
   \<and> shutdown \<lparr> forceExit = True, shutdownInProgress = True \<rparr>
     = (Returned, \<lparr> forceExit = True, shutdownInProgress = True \<rparr>)
   \<and> signals (Suc n) initial_flags = Started # replicate n Returned"
  using signals_in_progress [of "\<lparr> forceExit = True, shutdownInProgress = True \<rparr>" n]
  by (simp add: shutdown_def initial_flags_def)

subsection \<open>The polling client\<close>

text \<open>
  Claim C7.  The first poll records what it observes and triggers no reload, whatever it
  observes (and records nothing when reading the manifest throws).  A timestamp is a
  reading of \<^verbatim>\<open>Date.now()\<close> written by a development rebuild
  (\<open>dev_timestamp_is_now\<close>), a positive number of milliseconds.  A client that observes
  two consecutive distinct timestamps triggers exactly one reload, on the second
  observation; and a client that polls the first timestamp any number of times before the
  second one appears triggers no reload until then and one on the poll that first sees
  the second timestamp.
\<close>

theorem poll_baseline_then_reload:
  "checkForUpdates Null (Got c) = (Seen c, False)
   \<and> checkForUpdates Null Threw = (Null, False)
   \<and> (0 < t1 \<and> 0 < t2 \<and> t1 \<noteq> t2 \<longrightarrow>
        poll Null [Got (Some t1), Got (Some t2)] = [False, True]
        \<and> poll Null (replicate (Suc m) (Got (Some t1)) @ [Got (Some t2)])
            = replicate (Suc m) False @ [True])"
  using poll_unchanged [of t1 m "[Got (Some t2)]"]
  by (simp add: checkForUpdates_def)

theorem poll_baseline_then_reload_witness:
  "(0::int) < 1700000000000 \<and> (0::int) < 1700000000450
   \<and> (1700000000000::int) \<noteq> 1700000000450
   \<and> poll Null [Got (Some 1700000000000), Got (Some 1700000000450)] = [False, True]
   \<and> poll Null [Got (Some 1700000000000), Got (Some 1700000000000), Got (Some 1700000000000),
                Got (Some 1700000000450)]
       = [False, False, False, True]"
  using poll_baseline_then_reload [of None 1700000000000 1700000000450 2]
  by (simp add: numeral_2_eq_2)

end
